theory Spec2Isabelle
  imports Main
begin

section \<open>Common notions\<close>

text \<open>Primary keys are UUIDs; the tasks receive them as strings.\<close>

type_synonym pk = string

text \<open>The exceptions the modelled code raises, as values.\<close>

datatype error =
    DoesNotExist
  | ValidationError
  | KeyError
  | AttributeError
  | IntegrityError
  | AssertionError

text \<open>
  \<^verbatim>\<open>with transaction.atomic():\<close> runs its body on the store; when the body raises,
  every write of the body is rolled back and the exception propagates, otherwise the
  writes are committed.
\<close>

definition atomic :: "('s \<Rightarrow> (error + 'a) \<times> 's) \<Rightarrow> 's \<Rightarrow> (error + 'a) \<times> 's" where
  "atomic body s =
     (case body s of
        (Inl e, s') \<Rightarrow> (Inl e, s)
      | (Inr r, s') \<Rightarrow> (Inr r, s'))"

section \<open>Repository versions (pulpcore/app/tasks/repository.py)\<close>

record Repository =
  repo_pk :: pk
  repo_name :: string
  repo_next_version :: nat

record RepositoryVersion =
  rv_pk :: pk
  rv_repository :: pk
  rv_number :: nat
  rv_complete :: bool
  rv_content :: "pk list"

record store =
  repositories :: "Repository list"
  versions :: "RepositoryVersion list"
  contents :: "pk list"

text \<open>\<^verbatim>\<open>Model.objects.get(pk=...)\<close>: the row with that primary key, or DoesNotExist.\<close>

definition RepositoryVersion_get :: "pk \<Rightarrow> store \<Rightarrow> RepositoryVersion option" where
  "RepositoryVersion_get p s = find (\<lambda>v. rv_pk v = p) (versions s)"

definition Repository_get :: "pk \<Rightarrow> store \<Rightarrow> Repository option" where
  "Repository_get p s = find (\<lambda>r. repo_pk r = p) (repositories s)"

text \<open>\<^verbatim>\<open>repository.versions.complete()\<close>: the complete versions of one repository.\<close>

definition complete_versions :: "pk \<Rightarrow> store \<Rightarrow> RepositoryVersion list" where
  "complete_versions r s = filter (\<lambda>v. rv_repository v = r \<and> rv_complete v) (versions s)"

text \<open>
  Modelled from the spec: \<^verbatim>\<open>RepositoryVersion.delete()\<close> is not part of the sources at
  hand. The spec says that deleting a version squashes its history into the successor
  and does not change the content set of any other version; on content sets that is the
  removal of the version's row.
\<close>

definition version_delete :: "RepositoryVersion \<Rightarrow> store \<Rightarrow> store" where
  "version_delete v s = s\<lparr>versions := filter (\<lambda>w. rv_pk w \<noteq> rv_pk v) (versions s)\<rparr>"

text \<open>
  The two messages of \<^verbatim>\<open>delete_version\<close>; the second carries \<^verbatim>\<open>version.number\<close> and
  \<^verbatim>\<open>version.repository.name\<close>.
\<close>

datatype log_msg =
    NotFound_NothingToDo
  | Deleting_and_squashing nat string

text \<open>
  \<^verbatim>\<open>version.repository.name\<close>. The repository of a version is a foreign key that the store
  enforces, so the row is there; for a key without a row the name is taken as empty.
\<close>

definition version_repository_name :: "RepositoryVersion \<Rightarrow> store \<Rightarrow> string" where
  "version_repository_name version s =
     (case Repository_get (rv_repository version) s of
        Some repository \<Rightarrow> repo_name repository
      | None \<Rightarrow> [])"

text \<open>
  \<^verbatim>\<open>delete_version(pk)\<close>. The body of the transaction returns the messages it logged
  when it returns normally; the raising path logs nothing.
\<close>

definition delete_version_body :: "pk \<Rightarrow> store \<Rightarrow> (error + log_msg list) \<times> store" where
  "delete_version_body p s =
     (case RepositoryVersion_get p s of
        None \<Rightarrow> (Inr [NotFound_NothingToDo], s)
      | Some version \<Rightarrow>
          if length (complete_versions (rv_repository version) s) \<le> 1
          then (Inl ValidationError, s)
          else (Inr [Deleting_and_squashing (rv_number version)
                       (version_repository_name version s)],
                version_delete version s))"

definition delete_version :: "pk \<Rightarrow> store \<Rightarrow> (error + log_msg list) \<times> store" where
  "delete_version p s = atomic (delete_version_body p) s"

text \<open>
  Modelled from the spec: \<^verbatim>\<open>Repository.latest_version()\<close> is not part of the sources at
  hand. The spec: the latest version is the one with the highest number among the
  complete versions; there is none when the repository has no complete version.
\<close>

fun highest_number :: "RepositoryVersion list \<Rightarrow> RepositoryVersion option" where
  "highest_number [] = None"
| "highest_number (v # vs) =
     (case highest_number vs of
        None \<Rightarrow> Some v
      | Some w \<Rightarrow> if rv_number v < rv_number w then Some w else Some v)"

definition latest_version :: "Repository \<Rightarrow> store \<Rightarrow> RepositoryVersion option" where
  "latest_version r s = highest_number (complete_versions (repo_pk r) s)"

text \<open>\<^verbatim>\<open>models.Content.objects.filter(pk__in=ids)\<close>: the Content rows whose pk is listed.\<close>

definition Content_filter_pk_in :: "pk list \<Rightarrow> store \<Rightarrow> pk list" where
  "Content_filter_pk_in ids s = filter (\<lambda>c. c \<in> set ids) (contents s)"

text \<open>
  Modelled from the spec: \<^verbatim>\<open>Repository.new_version\<close>, \<^verbatim>\<open>remove_content\<close> and
  \<^verbatim>\<open>add_content\<close> of RepositoryVersion are not part of the sources at hand. The spec:
  exactly one new version is created, derived from the base version, or from the
  current latest version when no base is given; version numbers are never reused;
  removing takes the given units out of the content set, adding puts them in.
\<close>

definition new_version_enter ::
  "pk \<Rightarrow> Repository \<Rightarrow> RepositoryVersion option \<Rightarrow> store \<Rightarrow> RepositoryVersion \<times> store" where
  "new_version_enter new_pk r base_version s =
     (let start = (case base_version of
                     Some b \<Rightarrow> rv_content b
                   | None \<Rightarrow> (case latest_version r s of Some l \<Rightarrow> rv_content l | None \<Rightarrow> []));
          v = \<lparr>rv_pk = new_pk, rv_repository = repo_pk r, rv_number = repo_next_version r,
               rv_complete = False, rv_content = start\<rparr>;
          bump = (\<lambda>q. if repo_pk q = repo_pk r
                       then q\<lparr>repo_next_version := Suc (repo_next_version q)\<rparr> else q)
      in (v, s\<lparr>repositories := map bump (repositories s)\<rparr>))"

definition remove_content :: "pk list \<Rightarrow> RepositoryVersion \<Rightarrow> RepositoryVersion" where
  "remove_content units v = v\<lparr>rv_content := filter (\<lambda>c. c \<notin> set units) (rv_content v)\<rparr>"

definition add_content :: "pk list \<Rightarrow> RepositoryVersion \<Rightarrow> RepositoryVersion" where
  "add_content units v =
     v\<lparr>rv_content := rv_content v @ filter (\<lambda>c. c \<notin> set (rv_content v)) units\<rparr>"

definition new_version_exit :: "RepositoryVersion \<Rightarrow> store \<Rightarrow> RepositoryVersion \<times> store" where
  "new_version_exit v s =
     (let w = v\<lparr>rv_complete := True\<rparr> in (w, s\<lparr>versions := versions s @ [w]\<rparr>))"

text \<open>Lines 224 to 227: an absent or empty \<^verbatim>\<open>base_version_pk\<close> is falsy.\<close>

definition get_base_version :: "pk option \<Rightarrow> store \<Rightarrow> error + RepositoryVersion option" where
  "get_base_version base_version_pk s =
     (case base_version_pk of
        None \<Rightarrow> Inr None
      | Some p \<Rightarrow>
          if p = [] then Inr None
          else (case RepositoryVersion_get p s of
                  None \<Rightarrow> Inl DoesNotExist
                | Some b \<Rightarrow> Inr (Some b)))"

text \<open>Lines 229 to 234: the special value \<^verbatim>\<open>"*"\<close> in the remove list.\<close>

definition resolve_remove_content_units :: "Repository \<Rightarrow> pk list \<Rightarrow> store \<Rightarrow> pk list" where
  "resolve_remove_content_units repository remove_content_units s =
     (if ''*'' \<in> set remove_content_units
      then (case latest_version repository s of
              Some latest \<Rightarrow> rv_content latest
            | None \<Rightarrow> [])
      else remove_content_units)"

text \<open>
  \<^verbatim>\<open>add_and_remove\<close>. \<open>new_pk\<close> is the primary key the store gives the new version. The
  value returned on success is the \<^verbatim>\<open>new_version\<close> the \<^verbatim>\<open>with\<close> statement binds, as it is
  when the block is left.
\<close>

definition add_and_remove ::
  "pk \<Rightarrow> pk \<Rightarrow> pk list \<Rightarrow> pk list \<Rightarrow> pk option \<Rightarrow> store \<Rightarrow> (error + RepositoryVersion) \<times> store" where
  "add_and_remove new_pk repository_pk add_content_units remove_content_units base_version_pk s =
     (case Repository_get repository_pk s of
        None \<Rightarrow> (Inl DoesNotExist, s)
      | Some repository \<Rightarrow>
          (case get_base_version base_version_pk s of
             Inl e \<Rightarrow> (Inl e, s)
           | Inr base_version \<Rightarrow>
               (let remove_ids = resolve_remove_content_units repository remove_content_units s;
                    (new_version, s1) = new_version_enter new_pk repository base_version s;
                    v1 = remove_content (Content_filter_pk_in remove_ids s1) new_version;
                    v2 = add_content (Content_filter_pk_in add_content_units s1) v1;
                    (v3, s2) = new_version_exit v2 s1
                in (Inr v3, s2))))"

subsection \<open>Example stores\<close>

definition demo_store :: store where
  "demo_store =
     \<lparr>repositories = [\<lparr>repo_pk = ''r1'', repo_name = ''demo'', repo_next_version = 2\<rparr>],
      versions =
        [\<lparr>rv_pk = ''v0'', rv_repository = ''r1'', rv_number = 0, rv_complete = True,
          rv_content = []\<rparr>,
         \<lparr>rv_pk = ''v1'', rv_repository = ''r1'', rv_number = 1, rv_complete = True,
          rv_content = [''c1'', ''c2'']\<rparr>],
      contents = [''c1'', ''c2'', ''c3'']\<rparr>"

definition demo_store_single :: store where
  "demo_store_single =
     \<lparr>repositories = [\<lparr>repo_pk = ''r1'', repo_name = ''demo'', repo_next_version = 1\<rparr>],
      versions =
        [\<lparr>rv_pk = ''v0'', rv_repository = ''r1'', rv_number = 0, rv_complete = True,
          rv_content = []\<rparr>],
      contents = [''c1'']\<rparr>"

definition demo_store_fresh :: store where
  "demo_store_fresh =
     \<lparr>repositories = [\<lparr>repo_pk = ''r1'', repo_name = ''demo'', repo_next_version = 0\<rparr>],
      versions = [],
      contents = [''c1'']\<rparr>"

section \<open>The content store (models used by the stages and by repair)\<close>

type_synonym bytes = string

record Artifact =
  a_pk :: pk
  a_file :: string
  a_size :: nat
  a_md5 :: string
  a_sha1 :: string
  a_sha224 :: string
  a_sha256 :: string
  a_sha384 :: string
  a_sha512 :: string
  a_pulp_domain :: pk

record Content =
  c_pk :: pk
  c_type :: string
  c_adding :: bool
  c_fields :: "(string \<times> string) list"
  c_pulp_domain :: pk

record ContentArtifact =
  ca_content :: pk
  ca_artifact :: "Artifact option"
  ca_relative_path :: string

record remote_artifact_data =
  ra_url :: string
  ra_size :: nat
  ra_md5 :: string
  ra_sha1 :: string
  ra_sha224 :: string
  ra_sha256 :: string
  ra_sha384 :: string
  ra_sha512 :: string
  ra_remote :: pk

record RemoteArtifact = remote_artifact_data +
  ra_content_artifact :: ContentArtifact

record pulp_db =
  content_table :: "Content list"
  content_artifact_table :: "ContentArtifact list"
  remote_artifact_table :: "RemoteArtifact list"

section \<open>Artifact repair (pulpcore/app/tasks/repository.py)\<close>

record DownloadResult =
  dl_path :: string
  dl_sha256 :: string
  dl_bytes :: bytes

datatype storage_op = Delete string | Save string bytes

record repair_state =
  rs_storage :: "string \<rightharpoonup> bytes"
  rs_ops :: "storage_op list"
  rs_downloads :: "RemoteArtifact list"
  rs_missing :: nat
  rs_corrupted :: nat
  rs_repaired :: nat

record repair_env =
  re_run :: "RemoteArtifact \<Rightarrow> string + DownloadResult"
  re_hexdigest :: "bytes \<Rightarrow> string"
  re_domain :: pk

definition remoteartifact_set :: "pulp_db \<Rightarrow> ContentArtifact \<Rightarrow> RemoteArtifact list" where
  "remoteartifact_set db ca = filter (\<lambda>ra. ra_content_artifact ra = ca) (remote_artifact_table db)"

definition file_delete :: "string \<Rightarrow> repair_state \<Rightarrow> repair_state" where
  "file_delete name st =
     st\<lparr>rs_storage := (rs_storage st)(name := None), rs_ops := rs_ops st @ [Delete name]\<rparr>"

definition file_save :: "string \<Rightarrow> bytes \<Rightarrow> repair_state \<Rightarrow> repair_state" where
  "file_save name src st =
     st\<lparr>rs_storage := (rs_storage st)(name \<mapsto> src), rs_ops := rs_ops st @ [Save name src]\<rparr>"

fun repair_ca_loop ::
  "repair_env \<Rightarrow> Artifact \<Rightarrow> bool \<Rightarrow> RemoteArtifact list \<Rightarrow> repair_state \<Rightarrow> bool \<times> repair_state" where
  "repair_ca_loop env artifact count [] st = (False, file_delete (a_file artifact) st)"
| "repair_ca_loop env artifact count (remote_artifact # rest) st =
     (let st1 = st\<lparr>rs_downloads := rs_downloads st @ [remote_artifact]\<rparr>
      in case re_run env remote_artifact of
           Inl e \<Rightarrow> repair_ca_loop env artifact count rest st1
         | Inr dl_result \<Rightarrow>
             if dl_sha256 dl_result = a_sha256 artifact
             then (let filename = a_file artifact;
                       st2 = file_delete filename st1;
                       st3 = file_save filename (dl_bytes dl_result) st2;
                       st4 = (if count then st3\<lparr>rs_repaired := Suc (rs_repaired st3)\<rparr> else st3)
                   in (True, st4))
             else repair_ca_loop env artifact count rest st1)"

definition repair_ca ::
  "repair_env \<Rightarrow> pulp_db \<Rightarrow> ContentArtifact \<Rightarrow> bool \<Rightarrow> repair_state
     \<Rightarrow> error + bool \<times> repair_state" where
  "repair_ca env db content_artifact count st =
     (case ca_artifact content_artifact of
        None \<Rightarrow> Inl AttributeError
      | Some artifact \<Rightarrow>
          (let remote_artifacts = remoteartifact_set db content_artifact
           in if remote_artifacts = []
              then Inr (False, file_delete (a_file artifact) st)
              else Inr (repair_ca_loop env artifact count remote_artifacts st)))"


text \<open>
  \<^verbatim>\<open>_verify_artifact\<close>: the assertion on the domain, then the sha256 of the stored bytes,
  read in chunks of \<^verbatim>\<open>CHUNK_SIZE\<close>, against the recorded digest; a missing file is invalid.
\<close>

definition CHUNK_SIZE :: nat where
  "CHUNK_SIZE = 1024 * 1024"

definition verify_artifact :: "repair_env \<Rightarrow> Artifact \<Rightarrow> repair_state \<Rightarrow> error + bool" where
  "verify_artifact env artifact st =
     (if re_domain env \<noteq> a_pulp_domain artifact then Inl AssertionError
      else (case rs_storage st (a_file artifact) of
              None \<Rightarrow> Inr False
            | Some data \<Rightarrow> Inr (re_hexdigest env data = a_sha256 artifact)))"

text \<open>
  The body of the scan loop of \<^verbatim>\<open>_repair_artifacts_for_content\<close> (lines 136 to 162) for
  one content artifact. The repair tasks the loop schedules, at most five in flight, are
  run here in the order in which they are scheduled.
\<close>

definition start_repair ::
  "repair_env \<Rightarrow> pulp_db \<Rightarrow> ContentArtifact \<Rightarrow> repair_state \<Rightarrow> error + repair_state" where
  "start_repair env db content_artifact st =
     (case repair_ca env db content_artifact True st of
        Inl e \<Rightarrow> Inl e
      | Inr (ok, st') \<Rightarrow> Inr st')"

definition scan_content_artifact ::
  "repair_env \<Rightarrow> pulp_db \<Rightarrow> bool \<Rightarrow> ContentArtifact \<Rightarrow> repair_state \<Rightarrow> error + repair_state" where
  "scan_content_artifact env db verify_checksums content_artifact st =
     (case ca_artifact content_artifact of
        None \<Rightarrow> Inl AttributeError
      | Some artifact \<Rightarrow>
          if rs_storage st (a_file artifact) = None
          then start_repair env db content_artifact (st\<lparr>rs_missing := Suc (rs_missing st)\<rparr>)
          else if verify_checksums
          then (case verify_artifact env artifact st of
                  Inl e \<Rightarrow> Inl e
                | Inr valid \<Rightarrow>
                    if \<not> valid
                    then start_repair env db content_artifact
                           (st\<lparr>rs_corrupted := Suc (rs_corrupted st)\<rparr>)
                    else Inr st)
          else Inr st)"

fun repair_scan ::
  "repair_env \<Rightarrow> pulp_db \<Rightarrow> bool \<Rightarrow> ContentArtifact list \<Rightarrow> repair_state
     \<Rightarrow> error + repair_state" where
  "repair_scan env db verify_checksums [] st = Inr st"
| "repair_scan env db verify_checksums (content_artifact # rest) st =
     (case scan_content_artifact env db verify_checksums content_artifact st of
        Inl e \<Rightarrow> Inl e
      | Inr st' \<Rightarrow> repair_scan env db verify_checksums rest st')"

text \<open>
  Lines 117 to 124: the content artifacts to scan. \<open>subset_qs\<close> is the \<^verbatim>\<open>subset\<close>
  argument: the primary keys of the queryset of Content the caller passes, or None.
\<close>

definition domain_content :: "repair_env \<Rightarrow> pulp_db \<Rightarrow> pk list" where
  "domain_content env db =
     map c_pk (filter (\<lambda>c. c_pulp_domain c = re_domain env) (content_table db))"

definition repair_query_set :: "repair_env \<Rightarrow> pulp_db \<Rightarrow> pk list option \<Rightarrow> ContentArtifact list" where
  "repair_query_set env db subset_qs =
     (let query_set = filter (\<lambda>ca. ca_artifact ca \<noteq> None) (content_artifact_table db);
          scope = (case subset_qs of
                     None \<Rightarrow> domain_content env db
                   | Some pks \<Rightarrow> if pks = [] then domain_content env db else pks)
      in filter (\<lambda>ca. ca_content ca \<in> set scope) query_set)"

definition repair_artifacts_for_content ::
  "repair_env \<Rightarrow> pulp_db \<Rightarrow> pk list option \<Rightarrow> bool \<Rightarrow> repair_state \<Rightarrow> error + repair_state" where
  "repair_artifacts_for_content env db subset_qs verify_checksums st =
     repair_scan env db verify_checksums (repair_query_set env db subset_qs) st"

text \<open>A source passes when its download succeeds and has the recorded sha256.\<close>

definition verified :: "repair_env \<Rightarrow> Artifact \<Rightarrow> RemoteArtifact \<Rightarrow> bool" where
  "verified env a ra =
     (case re_run env ra of Inl e \<Rightarrow> False | Inr dl \<Rightarrow> dl_sha256 dl = a_sha256 a)"

subsection \<open>Example data for repair\<close>

definition demo_artifact :: Artifact where
  "demo_artifact =
     \<lparr>a_pk = ''a1'', a_file = ''artifact/ab/cdef'', a_size = 3, a_md5 = ''m1'', a_sha1 = ''s1'',
      a_sha224 = ''s224'', a_sha256 = ''s256'', a_sha384 = ''s384'', a_sha512 = ''s512'',
      a_pulp_domain = ''d1''\<rparr>"

definition demo_ca :: ContentArtifact where
  "demo_ca =
     \<lparr>ca_content = ''c1'', ca_artifact = Some demo_artifact, ca_relative_path = ''pkg/a.txt''\<rparr>"

definition demo_remote_artifact :: "string \<Rightarrow> RemoteArtifact" where
  "demo_remote_artifact u =
     \<lparr>ra_url = u, ra_size = 3, ra_md5 = ''m1'', ra_sha1 = ''s1'', ra_sha224 = ''s224'',
      ra_sha256 = ''s256'', ra_sha384 = ''s384'', ra_sha512 = ''s512'', ra_remote = ''rem1'',
      ra_content_artifact = demo_ca\<rparr>"

definition demo_run :: "RemoteArtifact \<Rightarrow> string + DownloadResult" where
  "demo_run ra =
     (if ra_url ra = ''http://down'' then Inl ''connection refused''
      else if ra_url ra = ''http://bad''
      then Inr \<lparr>dl_path = ''/tmp/1'', dl_sha256 = ''other'', dl_bytes = ''xyz''\<rparr>
      else Inr \<lparr>dl_path = ''/tmp/2'', dl_sha256 = ''s256'', dl_bytes = ''abc''\<rparr>)"

definition demo_hexdigest :: "bytes \<Rightarrow> string" where
  "demo_hexdigest b = (if b = ''abc'' then ''s256'' else ''other'')"

definition demo_env :: repair_env where
  "demo_env = \<lparr>re_run = demo_run, re_hexdigest = demo_hexdigest, re_domain = ''d1''\<rparr>"

definition demo_content :: Content where
  "demo_content =
     \<lparr>c_pk = ''c1'', c_type = ''file'', c_adding = False,
      c_fields = [(''relative_path'', ''pkg/a.txt''), (''digest'', ''s256'')],
      c_pulp_domain = ''d1''\<rparr>"

definition demo_db :: pulp_db where
  "demo_db =
     \<lparr>content_table = [demo_content],
      content_artifact_table = [demo_ca],
      remote_artifact_table =
        [demo_remote_artifact ''http://down'', demo_remote_artifact ''http://bad'',
         demo_remote_artifact ''http://good'', demo_remote_artifact ''http://mirror'']\<rparr>"

definition demo_db_unreachable :: pulp_db where
  "demo_db_unreachable =
     \<lparr>content_table = [demo_content],
      content_artifact_table = [demo_ca],
      remote_artifact_table =
        [demo_remote_artifact ''http://down'', demo_remote_artifact ''http://bad'']\<rparr>"

definition demo_state :: repair_state where
  "demo_state =
     \<lparr>rs_storage = [''artifact/ab/cdef'' \<mapsto> ''zzz''], rs_ops = [], rs_downloads = [],
      rs_missing = 0, rs_corrupted = 0, rs_repaired = 0\<rparr>"

section \<open>The content stages (pulpcore/plugin/stages/content_unit_stages.py)\<close>

record DeclarativeArtifact =
  da_artifact :: Artifact
  da_url :: string
  da_relative_path :: string
  da_remote :: pk

record DeclarativeContent =
  dc_content :: Content
  d_artifacts :: "DeclarativeArtifact list"

text \<open>
  What \<^verbatim>\<open>in_q.get_nowait()\<close> gives, one poll after the other: an item (None is the
  sentinel) or \<^verbatim>\<open>asyncio.QueueEmpty\<close>. When the list of polls is used up the queue stays
  empty for ever.
\<close>

datatype 'a poll = Got 'a | QueueEmpty

text \<open>
  How a stage ends: its coroutine returns, it waits in \<^verbatim>\<open>await in_q.get()\<close> for an item
  that never comes, or an exception leaves it.
\<close>

datatype outcome = Returned | Blocked | Raised error

subsection \<open>Natural keys and queries\<close>

text \<open>\<^verbatim>\<open>getattr(content, field)\<close>: the attribute, or AttributeError when there is none.\<close>

definition getattr :: "Content \<Rightarrow> string \<Rightarrow> error + string" where
  "getattr c field =
     (case map_of (c_fields c) field of None \<Rightarrow> Inl AttributeError | Some v \<Rightarrow> Inr v)"

text \<open>
  Modelled from the spec: \<^verbatim>\<open>natural_key_fields()\<close> and \<^verbatim>\<open>natural_key_dict()\<close> are methods
  of the Content models, which are not part of the sources at hand. The spec: a registry
  maps a type tag to its natural-key field list, and the natural key of a unit is the
  values of those fields. The registry \<open>nkf\<close> is a parameter.
\<close>

fun natural_key_dict_of :: "Content \<Rightarrow> string list \<Rightarrow> error + (string \<times> string) list" where
  "natural_key_dict_of c [] = Inr []"
| "natural_key_dict_of c (f # fs) =
     (case getattr c f of
        Inl e \<Rightarrow> Inl e
      | Inr v \<Rightarrow>
          (case natural_key_dict_of c fs of
             Inl e \<Rightarrow> Inl e
           | Inr kv \<Rightarrow> Inr ((f, v) # kv)))"

definition natural_key_dict :: "(string \<Rightarrow> string list) \<Rightarrow> Content \<Rightarrow> error + (string \<times> string) list" where
  "natural_key_dict nkf c = natural_key_dict_of c (nkf (c_type c))"

text \<open>
  Django's Q objects as far as the stage builds them: \<^verbatim>\<open>Q(pk=None)\<close>, \<^verbatim>\<open>Q(**unit_key)\<close> and
  \<^verbatim>\<open>|\<close>. Combining with a Q that has no condition gives the other operand.
\<close>

datatype Q = Q_pk_None | Q_kwargs "(string \<times> string) list" | Q_or Q Q

definition Q_or_op :: "Q \<Rightarrow> Q \<Rightarrow> Q" where
  "Q_or_op a b = (if b = Q_kwargs [] then a else if a = Q_kwargs [] then b else Q_or a b)"

fun Q_matches :: "Q \<Rightarrow> Content \<Rightarrow> bool" where
  "Q_matches Q_pk_None row = False"
| "Q_matches (Q_kwargs kv) row = list_all (\<lambda>(f, v). map_of (c_fields row) f = Some v) kv"
| "Q_matches (Q_or a b) row = (Q_matches a row \<or> Q_matches b row)"

text \<open>\<^verbatim>\<open>model_type.objects.filter(q)\<close>: the saved rows of that type that satisfy \<open>q\<close>.\<close>

definition objects_filter :: "Content list \<Rightarrow> string \<Rightarrow> Q \<Rightarrow> Content list" where
  "objects_filter tbl model_type q = filter (\<lambda>row. c_type row = model_type \<and> Q_matches q row) tbl"

text \<open>
  \<^verbatim>\<open>content_q_by_type\<close> is a \<^verbatim>\<open>defaultdict(lambda: Q(pk=None))\<close>; a dict keeps its keys in
  the order of their first insertion.
\<close>

definition dict_get_default :: "(string \<times> Q) list \<Rightarrow> string \<Rightarrow> Q" where
  "dict_get_default d k = (case map_of d k of None \<Rightarrow> Q_pk_None | Some q \<Rightarrow> q)"

fun dict_set :: "(string \<times> Q) list \<Rightarrow> string \<Rightarrow> Q \<Rightarrow> (string \<times> Q) list" where
  "dict_set [] k v = [(k, v)]"
| "dict_set ((k', v') # d) k v = (if k' = k then (k, v) # d else (k', v') # dict_set d k v)"

subsection \<open>query_existing_content_units\<close>

text \<open>Lines 48 to 56: the query of each type present in the batch.\<close>

fun build_content_q_by_type ::
  "(string \<Rightarrow> string list) \<Rightarrow> DeclarativeContent option list \<Rightarrow> (string \<times> Q) list
     \<Rightarrow> error + (string \<times> Q) list" where
  "build_content_q_by_type nkf [] content_q_by_type = Inr content_q_by_type"
| "build_content_q_by_type nkf (None # rest) content_q_by_type =
     build_content_q_by_type nkf rest content_q_by_type"
| "build_content_q_by_type nkf (Some declarative_content # rest) content_q_by_type =
     (let model_type = c_type (dc_content declarative_content)
      in case natural_key_dict nkf (dc_content declarative_content) of
           Inl e \<Rightarrow> Inl e
         | Inr unit_key \<Rightarrow>
             build_content_q_by_type nkf rest
               (dict_set content_q_by_type model_type
                  (Q_or_op (dict_get_default content_q_by_type model_type) (Q_kwargs unit_key))))"

text \<open>Lines 63 to 67: the loop over \<^verbatim>\<open>result.natural_key_fields()\<close>.\<close>

fun not_same_unit :: "string list \<Rightarrow> Content \<Rightarrow> Content \<Rightarrow> error + bool" where
  "not_same_unit [] content result = Inr False"
| "not_same_unit (field # more_fields) content result =
     (case getattr content field of
        Inl e \<Rightarrow> Inl e
      | Inr a \<Rightarrow>
          (case getattr result field of
             Inl e \<Rightarrow> Inl e
           | Inr b \<Rightarrow> if a \<noteq> b then Inr True else not_same_unit more_fields content result))"

text \<open>Lines 60 to 70: one returned record against every entry of the batch.\<close>

fun replace_matching ::
  "(string \<Rightarrow> string list) \<Rightarrow> Content \<Rightarrow> DeclarativeContent option list
     \<Rightarrow> error + DeclarativeContent option list" where
  "replace_matching nkf result [] = Inr []"
| "replace_matching nkf result (None # rest) =
     (case replace_matching nkf result rest of
        Inl e \<Rightarrow> Inl e
      | Inr rest' \<Rightarrow> Inr (None # rest'))"
| "replace_matching nkf result (Some declarative_content # rest) =
     (case not_same_unit (nkf (c_type result)) (dc_content declarative_content) result of
        Inl e \<Rightarrow> Inl e
      | Inr differs \<Rightarrow>
          (case replace_matching nkf result rest of
             Inl e \<Rightarrow> Inl e
           | Inr rest' \<Rightarrow>
               Inr (Some (if differs then declarative_content
                          else declarative_content\<lparr>dc_content := result\<rparr>) # rest')))"

fun apply_results ::
  "(string \<Rightarrow> string list) \<Rightarrow> Content list \<Rightarrow> DeclarativeContent option list
     \<Rightarrow> error + DeclarativeContent option list" where
  "apply_results nkf [] batch = Inr batch"
| "apply_results nkf (result # results) batch =
     (case replace_matching nkf result batch of
        Inl e \<Rightarrow> Inl e
      | Inr batch' \<Rightarrow> apply_results nkf results batch')"

text \<open>
  Lines 58 to 70: one query for every key of \<^verbatim>\<open>content_q_by_type\<close>. The queries issued are
  collected in \<open>issued\<close>.
\<close>

fun query_types ::
  "(string \<Rightarrow> string list) \<Rightarrow> Content list \<Rightarrow> (string \<times> Q) list
     \<Rightarrow> DeclarativeContent option list \<Rightarrow> (string \<times> Q) list
     \<Rightarrow> error + DeclarativeContent option list \<times> (string \<times> Q) list" where
  "query_types nkf tbl [] batch issued = Inr (batch, issued)"
| "query_types nkf tbl ((model_type, q) # rest) batch issued =
     (case apply_results nkf (objects_filter tbl model_type q) batch of
        Inl e \<Rightarrow> Inl e
      | Inr batch' \<Rightarrow> query_types nkf tbl rest batch' (issued @ [(model_type, q)]))"

definition query_batch ::
  "(string \<Rightarrow> string list) \<Rightarrow> Content list \<Rightarrow> DeclarativeContent option list
     \<Rightarrow> error + DeclarativeContent option list \<times> (string \<times> Q) list" where
  "query_batch nkf tbl declarative_content_list =
     (case build_content_q_by_type nkf declarative_content_list [] of
        Inl e \<Rightarrow> Inl e
      | Inr content_q_by_type \<Rightarrow>
          query_types nkf tbl content_q_by_type declarative_content_list [])"

text \<open>
  The loop of \<^verbatim>\<open>query_existing_content_units\<close> (lines 36 to 76). \<open>batch\<close> is
  \<^verbatim>\<open>declarative_content_list\<close>, \<open>out\<close> is what has been put on \<^verbatim>\<open>out_q\<close> so far. With an
  empty batch an empty poll is the wait in \<^verbatim>\<open>await in_q.get()\<close>: the next item polled is
  the one the wait returns. The batch is forwarded entry by entry, the sentinel included
  (lines 71 and 72), and after the loop the sentinel is put once more (line 76).
\<close>

fun qecu_loop ::
  "(string \<Rightarrow> string list) \<Rightarrow> Content list \<Rightarrow> DeclarativeContent option poll list
     \<Rightarrow> DeclarativeContent option list \<Rightarrow> DeclarativeContent option list
     \<Rightarrow> outcome \<times> DeclarativeContent option list" where
  "qecu_loop nkf tbl [] batch out =
     (if batch = [] then (Blocked, out)
      else (case query_batch nkf tbl batch of
              Inl e \<Rightarrow> (Raised e, out)
            | Inr (batch', issued) \<Rightarrow>
                if None \<in> set batch then (Returned, out @ batch' @ [None])
                else (Blocked, out @ batch')))"
| "qecu_loop nkf tbl (Got content # in_q) batch out =
     qecu_loop nkf tbl in_q (batch @ [content]) out"
| "qecu_loop nkf tbl (QueueEmpty # in_q) batch out =
     (if batch = [] then qecu_loop nkf tbl in_q [] out
      else (case query_batch nkf tbl batch of
              Inl e \<Rightarrow> (Raised e, out)
            | Inr (batch', issued) \<Rightarrow>
                if None \<in> set batch then (Returned, out @ batch' @ [None])
                else qecu_loop nkf tbl in_q [] (out @ batch')))"

definition query_existing_content_units ::
  "(string \<Rightarrow> string list) \<Rightarrow> Content list \<Rightarrow> DeclarativeContent option poll list
     \<Rightarrow> outcome \<times> DeclarativeContent option list" where
  "query_existing_content_units nkf tbl in_q = qecu_loop nkf tbl in_q [] []"

text \<open>The concrete types of the real entries of a batch, in their order.\<close>

fun batch_types :: "DeclarativeContent option list \<Rightarrow> string list" where
  "batch_types [] = []"
| "batch_types (None # rest) = batch_types rest"
| "batch_types (Some declarative_content # rest) =
     c_type (dc_content declarative_content) # batch_types rest"

subsection \<open>Example data for the stages\<close>

definition demo_nkf :: "string \<Rightarrow> string list" where
  "demo_nkf t =
     (if t = ''file'' then [''relative_path'', ''digest'']
      else if t = ''iso'' then [''relative_path'', ''digest'']
      else if t = ''rpm'' then [''name'']
      else [])"

definition demo_unit :: "pk \<Rightarrow> string \<Rightarrow> bool \<Rightarrow> (string \<times> string) list \<Rightarrow> Content" where
  "demo_unit p t adding fs =
     \<lparr>c_pk = p, c_type = t, c_adding = adding, c_fields = fs, c_pulp_domain = ''d1''\<rparr>"

definition demo_saved_file :: Content where
  "demo_saved_file =
     demo_unit ''s1'' ''file'' False [(''relative_path'', ''a''), (''digest'', ''x'')]"

definition demo_new_file :: DeclarativeContent where
  "demo_new_file =
     \<lparr>dc_content = demo_unit ''n1'' ''file'' True [(''relative_path'', ''a''), (''digest'', ''x'')],
      d_artifacts = []\<rparr>"

definition demo_new_iso :: DeclarativeContent where
  "demo_new_iso =
     \<lparr>dc_content = demo_unit ''n2'' ''iso'' True [(''relative_path'', ''a''), (''digest'', ''x'')],
      d_artifacts = []\<rparr>"

definition demo_new_rpm :: DeclarativeContent where
  "demo_new_rpm =
     \<lparr>dc_content = demo_unit ''n3'' ''rpm'' True [(''name'', ''a'')], d_artifacts = []\<rparr>"

definition demo_new_meta :: DeclarativeContent where
  "demo_new_meta = \<lparr>dc_content = demo_unit ''n4'' ''meta'' True [], d_artifacts = []\<rparr>"

text \<open>
  Whether some real entry of the batch of type \<open>t\<close> has a natural key that is not empty and
  all of whose fields the row has with the same values.
\<close>

fun requested ::
  "(string \<Rightarrow> string list) \<Rightarrow> string \<Rightarrow> Content \<Rightarrow> DeclarativeContent option list \<Rightarrow> bool" where
  "requested nkf t row [] = False"
| "requested nkf t row (None # rest) = requested nkf t row rest"
| "requested nkf t row (Some declarative_content # rest) =
     ((c_type (dc_content declarative_content) = t \<and>
       (case natural_key_dict nkf (dc_content declarative_content) of
          Inl e \<Rightarrow> False
        | Inr unit_key \<Rightarrow> unit_key \<noteq> [] \<and> Q_matches (Q_kwargs unit_key) row)) \<or>
      requested nkf t row rest)"

subsection \<open>content_unit_saver\<close>

text \<open>Lines 129 to 133: the ContentArtifact of a saved unit and one of its artifacts.\<close>

definition new_content_artifact :: "Content \<Rightarrow> DeclarativeArtifact \<Rightarrow> ContentArtifact" where
  "new_content_artifact content declarative_artifact =
     \<lparr>ca_content = c_pk content,
      ca_artifact = Some (da_artifact declarative_artifact),
      ca_relative_path = da_relative_path declarative_artifact\<rparr>"

text \<open>Lines 135 to 145: \<^verbatim>\<open>remote_artifact_data\<close>.\<close>

definition remote_artifact_data_of :: "DeclarativeArtifact \<Rightarrow> remote_artifact_data" where
  "remote_artifact_data_of declarative_artifact =
     \<lparr>ra_url = da_url declarative_artifact,
      ra_size = a_size (da_artifact declarative_artifact),
      ra_md5 = a_md5 (da_artifact declarative_artifact),
      ra_sha1 = a_sha1 (da_artifact declarative_artifact),
      ra_sha224 = a_sha224 (da_artifact declarative_artifact),
      ra_sha256 = a_sha256 (da_artifact declarative_artifact),
      ra_sha384 = a_sha384 (da_artifact declarative_artifact),
      ra_sha512 = a_sha512 (da_artifact declarative_artifact),
      ra_remote = da_remote declarative_artifact\<rparr>"

text \<open>Lines 151 to 153: \<^verbatim>\<open>RemoteArtifact(content_artifact=content_artifact, **data)\<close>.\<close>

definition new_remote_artifact :: "ContentArtifact \<Rightarrow> remote_artifact_data \<Rightarrow> RemoteArtifact" where
  "new_remote_artifact content_artifact data =
     \<lparr>ra_url = ra_url data, ra_size = ra_size data, ra_md5 = ra_md5 data,
      ra_sha1 = ra_sha1 data, ra_sha224 = ra_sha224 data, ra_sha256 = ra_sha256 data,
      ra_sha384 = ra_sha384 data, ra_sha512 = ra_sha512 data, ra_remote = ra_remote data,
      ra_content_artifact = content_artifact\<rparr>"

text \<open>
  \<^verbatim>\<open>content_artifact_bulk\<close> and \<^verbatim>\<open>remote_artifact_map\<close> (lines 117 to 119); the map is a
  dict whose key is the relative path alone (lines 146, 147).
\<close>

record saver_acc =
  acc_content_artifact_bulk :: "ContentArtifact list"
  acc_remote_artifact_map :: "string \<rightharpoonup> remote_artifact_data"

text \<open>Lines 128 to 147: the loop over \<^verbatim>\<open>declarative_content.d_artifacts\<close>.\<close>

fun stage_artifacts :: "Content \<Rightarrow> DeclarativeArtifact list \<Rightarrow> saver_acc \<Rightarrow> saver_acc" where
  "stage_artifacts content [] acc = acc"
| "stage_artifacts content (declarative_artifact # rest) acc =
     (let content_artifact = new_content_artifact content declarative_artifact;
          remote_artifact_data = remote_artifact_data_of declarative_artifact;
          rel_path = ca_relative_path content_artifact
      in stage_artifacts content rest
           (acc\<lparr>acc_content_artifact_bulk := acc_content_artifact_bulk acc @ [content_artifact],
                acc_remote_artifact_map :=
                  (acc_remote_artifact_map acc)(rel_path \<mapsto> remote_artifact_data)\<rparr>))"

text \<open>
  Modelled from the spec: \<^verbatim>\<open>Content.save()\<close> and the two \<^verbatim>\<open>bulk_create\<close> calls belong to
  the store, which is not part of the sources at hand. The spec: the store persists a
  record or refuses it; the natural key of a Content is unique per type and
  (content, relative_path) is unique among ContentArtifacts. Which Content rows the store
  accepts is the parameter \<open>accepts\<close>; a refused write raises. A function of the
  transaction body returns, with its result, the store as it is at that point.
\<close>

definition Content_save ::
  "(Content list \<Rightarrow> Content \<Rightarrow> bool) \<Rightarrow> Content \<Rightarrow> pulp_db \<Rightarrow> (error + Content) \<times> pulp_db" where
  "Content_save accepts content db =
     (if accepts (content_table db) content
      then (let saved = content\<lparr>c_adding := False\<rparr>
            in (Inr saved, db\<lparr>content_table := content_table db @ [saved]\<rparr>))
      else (Inl IntegrityError, db))"

definition ca_key :: "ContentArtifact \<Rightarrow> pk \<times> string" where
  "ca_key content_artifact = (ca_content content_artifact, ca_relative_path content_artifact)"

definition ContentArtifact_bulk_create ::
  "ContentArtifact list \<Rightarrow> pulp_db \<Rightarrow> (error + ContentArtifact list) \<times> pulp_db" where
  "ContentArtifact_bulk_create objs db =
     (if distinct (map ca_key objs) \<and>
         list_all (\<lambda>obj. ca_key obj \<notin> set (map ca_key (content_artifact_table db))) objs
      then (Inr objs, db\<lparr>content_artifact_table := content_artifact_table db @ objs\<rparr>)
      else (Inl IntegrityError, db))"

definition RemoteArtifact_bulk_create :: "RemoteArtifact list \<Rightarrow> pulp_db \<Rightarrow> pulp_db" where
  "RemoteArtifact_bulk_create objs db =
     db\<lparr>remote_artifact_table := remote_artifact_table db @ objs\<rparr>"

text \<open>Lines 122 to 147: the loop over the batch inside the transaction.\<close>

fun save_loop ::
  "(Content list \<Rightarrow> Content \<Rightarrow> bool) \<Rightarrow> DeclarativeContent option list \<Rightarrow> pulp_db \<Rightarrow> saver_acc
     \<Rightarrow> (error + DeclarativeContent option list \<times> saver_acc) \<times> pulp_db" where
  "save_loop accepts [] db acc = (Inr ([], acc), db)"
| "save_loop accepts (None # rest) db acc =
     (case save_loop accepts rest db acc of
        (Inl e, db') \<Rightarrow> (Inl e, db')
      | (Inr (rest', acc'), db') \<Rightarrow> (Inr (None # rest', acc'), db'))"
| "save_loop accepts (Some declarative_content # rest) db acc =
     (if c_adding (dc_content declarative_content)
      then (case Content_save accepts (dc_content declarative_content) db of
              (Inl e, db1) \<Rightarrow> (Inl e, db1)
            | (Inr saved, db1) \<Rightarrow>
                (case save_loop accepts rest db1
                        (stage_artifacts saved (d_artifacts declarative_content) acc) of
                   (Inl e, db') \<Rightarrow> (Inl e, db')
                 | (Inr (rest', acc'), db') \<Rightarrow>
                     (Inr (Some (declarative_content\<lparr>dc_content := saved\<rparr>) # rest', acc'),
                      db')))
      else (case save_loop accepts rest db acc of
              (Inl e, db') \<Rightarrow> (Inl e, db')
            | (Inr (rest', acc'), db') \<Rightarrow> (Inr (Some declarative_content # rest', acc'), db')))"

text \<open>
  Lines 149 to 154: every created ContentArtifact takes its data out of the map by its
  relative path; \<^verbatim>\<open>dict.pop\<close> of a key that is not there raises KeyError.
\<close>

fun pair_remote_artifacts ::
  "ContentArtifact list \<Rightarrow> (string \<rightharpoonup> remote_artifact_data) \<Rightarrow> RemoteArtifact list
     \<Rightarrow> error + RemoteArtifact list" where
  "pair_remote_artifacts [] remote_artifact_map remote_artifact_bulk = Inr remote_artifact_bulk"
| "pair_remote_artifacts (content_artifact # rest) remote_artifact_map remote_artifact_bulk =
     (case remote_artifact_map (ca_relative_path content_artifact) of
        None \<Rightarrow> Inl KeyError
      | Some remote_artifact_data \<Rightarrow>
          pair_remote_artifacts rest
            (remote_artifact_map(ca_relative_path content_artifact := None))
            (remote_artifact_bulk @
               [new_remote_artifact content_artifact remote_artifact_data]))"

text \<open>Lines 121 to 156: the body of \<^verbatim>\<open>with transaction.atomic()\<close>.\<close>

definition saver_body ::
  "(Content list \<Rightarrow> Content \<Rightarrow> bool) \<Rightarrow> DeclarativeContent option list \<Rightarrow> pulp_db
     \<Rightarrow> (error + DeclarativeContent option list) \<times> pulp_db" where
  "saver_body accepts declarative_content_list db =
     (case save_loop accepts declarative_content_list db
             \<lparr>acc_content_artifact_bulk = [], acc_remote_artifact_map = Map.empty\<rparr> of
        (Inl e, db1) \<Rightarrow> (Inl e, db1)
      | (Inr (batch', acc), db1) \<Rightarrow>
          (case ContentArtifact_bulk_create (acc_content_artifact_bulk acc) db1 of
             (Inl e, db2) \<Rightarrow> (Inl e, db2)
           | (Inr created, db2) \<Rightarrow>
               (case pair_remote_artifacts created (acc_remote_artifact_map acc) [] of
                  Inl e \<Rightarrow> (Inl e, db2)
                | Inr remote_artifact_bulk \<Rightarrow>
                    (Inr batch', RemoteArtifact_bulk_create remote_artifact_bulk db2))))"

definition content_unit_saver_batch ::
  "(Content list \<Rightarrow> Content \<Rightarrow> bool) \<Rightarrow> DeclarativeContent option list \<Rightarrow> pulp_db
     \<Rightarrow> (error + DeclarativeContent option list) \<times> pulp_db" where
  "content_unit_saver_batch accepts declarative_content_list db =
     atomic (saver_body accepts declarative_content_list) db"

text \<open>
  The loop of \<^verbatim>\<open>content_unit_saver\<close> (lines 105 to 165). The flag \<^verbatim>\<open>shutdown\<close> is False
  whenever line 109 reads it, since the loop is left at the end of the iteration that
  sets it. The batch is forwarded without its sentinel (lines 158 to 161) and the
  sentinel is put once after the loop (line 165).
\<close>

fun cus_loop ::
  "(Content list \<Rightarrow> Content \<Rightarrow> bool) \<Rightarrow> DeclarativeContent option poll list
     \<Rightarrow> DeclarativeContent option list \<Rightarrow> DeclarativeContent option list \<Rightarrow> pulp_db
     \<Rightarrow> (outcome \<times> DeclarativeContent option list) \<times> pulp_db" where
  "cus_loop accepts [] batch out db =
     (if batch = [] then ((Blocked, out), db)
      else (case content_unit_saver_batch accepts batch db of
              (Inl e, db') \<Rightarrow> ((Raised e, out), db')
            | (Inr batch', db') \<Rightarrow>
                if None \<in> set batch
                then ((Returned, out @ filter (\<lambda>x. x \<noteq> None) batch' @ [None]), db')
                else ((Blocked, out @ filter (\<lambda>x. x \<noteq> None) batch'), db')))"
| "cus_loop accepts (Got declarative_content # in_q) batch out db =
     cus_loop accepts in_q (batch @ [declarative_content]) out db"
| "cus_loop accepts (QueueEmpty # in_q) batch out db =
     (if batch = [] then cus_loop accepts in_q [] out db
      else (case content_unit_saver_batch accepts batch db of
              (Inl e, db') \<Rightarrow> ((Raised e, out), db')
            | (Inr batch', db') \<Rightarrow>
                if None \<in> set batch
                then ((Returned, out @ filter (\<lambda>x. x \<noteq> None) batch' @ [None]), db')
                else cus_loop accepts in_q [] (out @ filter (\<lambda>x. x \<noteq> None) batch') db'))"

definition content_unit_saver ::
  "(Content list \<Rightarrow> Content \<Rightarrow> bool) \<Rightarrow> DeclarativeContent option poll list \<Rightarrow> pulp_db
     \<Rightarrow> (outcome \<times> DeclarativeContent option list) \<times> pulp_db" where
  "content_unit_saver accepts in_q db = cus_loop accepts in_q [] [] db"

text \<open>
  The rows a batch asks for, in the spec's words: for every item whose content is still an
  unsaved candidate, the candidate as persisted, one ContentArtifact for every one of its
  DeclarativeArtifacts, and one RemoteArtifact for every such ContentArtifact, with the
  data of the same DeclarativeArtifact.
\<close>

fun unsaved_items :: "DeclarativeContent option list \<Rightarrow> DeclarativeContent list" where
  "unsaved_items [] = []"
| "unsaved_items (None # rest) = unsaved_items rest"
| "unsaved_items (Some declarative_content # rest) =
     (if c_adding (dc_content declarative_content)
      then declarative_content # unsaved_items rest
      else unsaved_items rest)"

definition new_contents :: "DeclarativeContent option list \<Rightarrow> Content list" where
  "new_contents batch = map (\<lambda>d. (dc_content d)\<lparr>c_adding := False\<rparr>) (unsaved_items batch)"

definition staged_pairs ::
  "DeclarativeContent option list \<Rightarrow> (ContentArtifact \<times> remote_artifact_data) list" where
  "staged_pairs batch =
     concat (map (\<lambda>d. map (\<lambda>da. (new_content_artifact (dc_content d) da,
                                   remote_artifact_data_of da))
                          (d_artifacts d))
                 (unsaved_items batch))"

definition new_content_artifacts :: "DeclarativeContent option list \<Rightarrow> ContentArtifact list" where
  "new_content_artifacts batch = map fst (staged_pairs batch)"

definition new_remote_artifacts :: "DeclarativeContent option list \<Rightarrow> RemoteArtifact list" where
  "new_remote_artifacts batch =
     map (\<lambda>(content_artifact, data). new_remote_artifact content_artifact data)
       (staged_pairs batch)"

subsection \<open>Example data for content_unit_saver\<close>

definition demo_da :: "string \<Rightarrow> string \<Rightarrow> DeclarativeArtifact" where
  "demo_da url path =
     \<lparr>da_artifact = demo_artifact, da_url = url, da_relative_path = path, da_remote = ''rem1''\<rparr>"

definition demo_dc :: "pk \<Rightarrow> string \<Rightarrow> DeclarativeArtifact list \<Rightarrow> DeclarativeContent" where
  "demo_dc p name das =
     \<lparr>dc_content = demo_unit p ''rpm'' True [(''name'', name)], d_artifacts = das\<rparr>"

definition demo_empty_db :: pulp_db where
  "demo_empty_db =
     \<lparr>content_table = [], content_artifact_table = [], remote_artifact_table = []\<rparr>"

definition accepts_all :: "Content list \<Rightarrow> Content \<Rightarrow> bool" where
  "accepts_all tbl content = True"

definition accepts_new_pk :: "Content list \<Rightarrow> Content \<Rightarrow> bool" where
  "accepts_new_pk tbl content = (c_pk content \<notin> set (map c_pk tbl))"

text \<open>One assignment \<^verbatim>\<open>remote_artifact_map[rel_path] = remote_artifact_data\<close> (line 147).\<close>

definition put_pair ::
  "ContentArtifact \<times> remote_artifact_data \<Rightarrow> (string \<rightharpoonup> remote_artifact_data)
     \<Rightarrow> (string \<rightharpoonup> remote_artifact_data)" where
  "put_pair p m = m(ca_relative_path (fst p) \<mapsto> snd p)"


definition demo_batch_ok :: "DeclarativeContent option list" where
  "demo_batch_ok =
     [Some (demo_dc ''n1'' ''a'' [demo_da ''http://one/f'' ''f.txt'']), None,
      Some (demo_dc ''n2'' ''b'' [demo_da ''http://two/g'' ''g.txt''])]"

definition demo_batch_dup :: "DeclarativeContent option list" where
  "demo_batch_dup =
     [Some (demo_dc ''n1'' ''a'' [demo_da ''http://one/f'' ''f.txt'']),
      Some (demo_dc ''n1'' ''a'' [demo_da ''http://one/g'' ''g.txt''])]"

definition demo_batch_shared :: "DeclarativeContent option list" where
  "demo_batch_shared =
     [Some (demo_dc ''n1'' ''a'' [demo_da ''http://one/f'' ''f.txt'']),
      Some (demo_dc ''n2'' ''b'' [demo_da ''http://two/f'' ''f.txt''])]"

section \<open>Properties of the repository version tasks\<close>

lemma atomic_Inl: "body s = (Inl e, s') \<Longrightarrow> atomic body s = (Inl e, s)"
  by (simp add: atomic_def)

lemma atomic_Inr: "body s = (Inr r, s') \<Longrightarrow> atomic body s = (Inr r, s')"
  by (simp add: atomic_def)

lemma find_filter_other_pk:
  "find (\<lambda>w. rv_pk w = p) (filter (\<lambda>w. rv_pk w \<noteq> p) xs) = None"
  by (induction xs) auto

lemma RepositoryVersion_get_pk: "RepositoryVersion_get p s = Some v \<Longrightarrow> rv_pk v = p"
  unfolding RepositoryVersion_get_def by (induction "versions s") (auto simp: find_Some_iff)

lemma delete_version_absent:
  "RepositoryVersion_get p s = None \<Longrightarrow> delete_version p s = (Inr [NotFound_NothingToDo], s)"
  by (simp add: delete_version_def delete_version_body_def atomic_def)

lemma delete_version_sole:
  "RepositoryVersion_get p s = Some v \<Longrightarrow> length (complete_versions (rv_repository v) s) \<le> 1
   \<Longrightarrow> delete_version p s = (Inl ValidationError, s)"
  by (simp add: delete_version_def delete_version_body_def atomic_def)

lemma delete_version_deletes:
  "RepositoryVersion_get p s = Some v \<Longrightarrow> 1 < length (complete_versions (rv_repository v) s)
   \<Longrightarrow> delete_version p s =
        (Inr [Deleting_and_squashing (rv_number v) (version_repository_name v s)],
         version_delete v s)"
  by (simp add: delete_version_def delete_version_body_def atomic_def)

lemma version_delete_gone:
  "rv_pk v = p \<Longrightarrow> RepositoryVersion_get p (version_delete v s) = None"
  by (simp add: RepositoryVersion_get_def version_delete_def find_filter_other_pk)

text \<open>
  C7. \<^verbatim>\<open>delete_version(pk)\<close> logs and changes nothing when no version has the key; it
  raises the validation error and changes nothing when the repository of the version has
  at most one complete version; in every other case, and only then, it deletes the
  version. The check and the delete are one transaction body.
\<close>

theorem delete_version_cases:
  "(RepositoryVersion_get p s = None \<longrightarrow>
      delete_version p s = (Inr [NotFound_NothingToDo], s)) \<and>
   (\<forall>v. RepositoryVersion_get p s = Some v \<and>
        length (complete_versions (rv_repository v) s) \<le> 1 \<longrightarrow>
      delete_version p s = (Inl ValidationError, s)) \<and>
   (\<forall>v. RepositoryVersion_get p s = Some v \<and>
        1 < length (complete_versions (rv_repository v) s) \<longrightarrow>
      delete_version p s =
        (Inr [Deleting_and_squashing (rv_number v) (version_repository_name v s)],
         version_delete v s) \<and>
      RepositoryVersion_get p (version_delete v s) = None) \<and>
   delete_version p s = atomic (delete_version_body p) s"
proof (intro conjI allI impI)
  show "delete_version p s = atomic (delete_version_body p) s"
    by (rule delete_version_def)
next
  assume "RepositoryVersion_get p s = None"
  then show "delete_version p s = (Inr [NotFound_NothingToDo], s)"
    by (rule delete_version_absent)
next
  fix v
  assume "RepositoryVersion_get p s = Some v \<and>
          length (complete_versions (rv_repository v) s) \<le> 1"
  then show "delete_version p s = (Inl ValidationError, s)"
    using delete_version_sole by blast
next
  fix v
  assume a: "RepositoryVersion_get p s = Some v \<and>
             1 < length (complete_versions (rv_repository v) s)"
  then show "delete_version p s =
        (Inr [Deleting_and_squashing (rv_number v) (version_repository_name v s)],
         version_delete v s)"
    using delete_version_deletes by blast
  from a show "RepositoryVersion_get p (version_delete v s) = None"
    using version_delete_gone RepositoryVersion_get_pk by blast
qed

theorem delete_version_cases_witness:
  "delete_version ''v9'' demo_store = (Inr [NotFound_NothingToDo], demo_store) \<and>
   delete_version ''v0'' demo_store_single = (Inl ValidationError, demo_store_single) \<and>
   delete_version ''v1'' demo_store =
     (Inr [Deleting_and_squashing 1 ''demo''],
      demo_store\<lparr>versions := [\<lparr>rv_pk = ''v0'', rv_repository = ''r1'', rv_number = 0,
                                 rv_complete = True, rv_content = []\<rparr>]\<rparr>)"
proof -
  have h1: "RepositoryVersion_get ''v9'' demo_store = None"
    by (simp add: RepositoryVersion_get_def demo_store_def)
  have h2: "RepositoryVersion_get ''v0'' demo_store_single =
              Some \<lparr>rv_pk = ''v0'', rv_repository = ''r1'', rv_number = 0, rv_complete = True,
                    rv_content = []\<rparr> \<and>
            length (complete_versions (rv_repository
              \<lparr>rv_pk = ''v0'', rv_repository = ''r1'', rv_number = 0, rv_complete = True,
               rv_content = []\<rparr>) demo_store_single) \<le> 1"
    by (simp add: RepositoryVersion_get_def complete_versions_def demo_store_single_def)
  have h3: "RepositoryVersion_get ''v1'' demo_store =
              Some \<lparr>rv_pk = ''v1'', rv_repository = ''r1'', rv_number = 1, rv_complete = True,
                    rv_content = [''c1'', ''c2'']\<rparr> \<and>
            1 < length (complete_versions (rv_repository
              \<lparr>rv_pk = ''v1'', rv_repository = ''r1'', rv_number = 1, rv_complete = True,
               rv_content = [''c1'', ''c2'']\<rparr>) demo_store)"
    by (simp add: RepositoryVersion_get_def complete_versions_def demo_store_def)
  have d: "version_delete \<lparr>rv_pk = ''v1'', rv_repository = ''r1'', rv_number = 1,
             rv_complete = True, rv_content = [''c1'', ''c2'']\<rparr> demo_store =
           demo_store\<lparr>versions := [\<lparr>rv_pk = ''v0'', rv_repository = ''r1'', rv_number = 0,
                                      rv_complete = True, rv_content = []\<rparr>]\<rparr>"
    by (simp add: version_delete_def demo_store_def)
  from delete_version_cases [of "''v9''" demo_store] h1
  have a: "delete_version ''v9'' demo_store = (Inr [NotFound_NothingToDo], demo_store)"
    by blast
  from delete_version_cases [of "''v0''" demo_store_single] h2
  have b: "delete_version ''v0'' demo_store_single = (Inl ValidationError, demo_store_single)"
    by blast
  have n: "version_repository_name \<lparr>rv_pk = ''v1'', rv_repository = ''r1'', rv_number = 1,
             rv_complete = True, rv_content = [''c1'', ''c2'']\<rparr> demo_store = ''demo''"
    by (simp add: version_repository_name_def Repository_get_def demo_store_def)
  from delete_version_cases [of "''v1''" demo_store] h3
  have "delete_version ''v1'' demo_store =
     (Inr [Deleting_and_squashing
             (rv_number \<lparr>rv_pk = ''v1'', rv_repository = ''r1'', rv_number = 1,
                rv_complete = True, rv_content = [''c1'', ''c2'']\<rparr>)
             (version_repository_name \<lparr>rv_pk = ''v1'', rv_repository = ''r1'', rv_number = 1,
                rv_complete = True, rv_content = [''c1'', ''c2'']\<rparr> demo_store)],
      version_delete \<lparr>rv_pk = ''v1'', rv_repository = ''r1'', rv_number = 1,
             rv_complete = True, rv_content = [''c1'', ''c2'']\<rparr> demo_store)"
    by blast
  then have c: "delete_version ''v1'' demo_store =
     (Inr [Deleting_and_squashing 1 ''demo''],
      version_delete \<lparr>rv_pk = ''v1'', rv_repository = ''r1'', rv_number = 1,
             rv_complete = True, rv_content = [''c1'', ''c2'']\<rparr> demo_store)"
    using n by simp
  from a b c d show ?thesis by simp
qed

subsection \<open>add_and_remove\<close>

lemma contents_new_version_enter:
  "contents (snd (new_version_enter npk r b s)) = contents s"
  by (simp add: new_version_enter_def Let_def)

lemma versions_new_version_enter:
  "versions (snd (new_version_enter npk r b s)) = versions s"
  by (simp add: new_version_enter_def Let_def)

lemma rv_content_new_version_enter:
  "rv_content (fst (new_version_enter npk r b s)) =
     (case b of
        Some w \<Rightarrow> rv_content w
      | None \<Rightarrow> (case latest_version r s of Some l \<Rightarrow> rv_content l | None \<Rightarrow> []))"
  by (simp add: new_version_enter_def Let_def)

lemma add_and_remove_success:
  assumes "Repository_get rp s = Some r" and "get_base_version bpk s = Inr b"
  shows "add_and_remove npk rp add rem bpk s =
     (let s1 = snd (new_version_enter npk r b s);
          v2 = add_content (Content_filter_pk_in add s1)
                 (remove_content
                    (Content_filter_pk_in (resolve_remove_content_units r rem s) s1)
                    (fst (new_version_enter npk r b s)))
      in (Inr (v2\<lparr>rv_complete := True\<rparr>),
          s1\<lparr>versions := versions s1 @ [v2\<lparr>rv_complete := True\<rparr>]\<rparr>))"
  using assms
  by (simp add: add_and_remove_def Let_def new_version_exit_def split: prod.splits)

lemma set_Content_filter_pk_in:
  "set (Content_filter_pk_in ids s) = set ids \<inter> set (contents s)"
  by (auto simp: Content_filter_pk_in_def)

lemma set_add_content: "set (rv_content (add_content us v)) = set (rv_content v) \<union> set us"
  by (auto simp: add_content_def)

lemma set_remove_content: "set (rv_content (remove_content us v)) = set (rv_content v) - set us"
  by (auto simp: remove_content_def)

text \<open>
  C8. Whenever \<^verbatim>\<open>add_and_remove\<close> is given a content unit \<open>X\<close> (the primary key of a
  Content row) in both the add list and the remove list, it completes and creates one new
  complete version whose content is the base content without the units to remove, plus
  the units to add: the removal is applied first, the addition after it. The removal takes
  \<open>X\<close> out of the base content (for a remove list of keys, without \<^verbatim>\<open>"*"\<close>), the addition
  puts it in, and \<open>X\<close> is in the content of the resulting version.
\<close>

theorem add_and_remove_add_wins:
  assumes "Repository_get rp s = Some r" and "get_base_version bpk s = Inr b"
    and "X \<in> set add" and "X \<in> set rem" and "X \<in> set (contents s)"
  shows "\<exists>v s'. add_and_remove npk rp add rem bpk s = (Inr v, s') \<and>
            set (rv_content v) =
              (set (case b of
                      Some w \<Rightarrow> rv_content w
                    | None \<Rightarrow> (case latest_version r s of Some l \<Rightarrow> rv_content l | None \<Rightarrow> []))
                 - set (if ''*'' \<in> set rem
                        then (case latest_version r s of Some l \<Rightarrow> rv_content l | None \<Rightarrow> [])
                        else rem) \<inter> set (contents s))
              \<union> set add \<inter> set (contents s) \<and>
            X \<in> set (rv_content v) \<and>
            (''*'' \<notin> set rem \<longrightarrow>
               X \<notin> set (case b of
                          Some w \<Rightarrow> rv_content w
                        | None \<Rightarrow> (case latest_version r s of Some l \<Rightarrow> rv_content l | None \<Rightarrow> []))
                     - set rem \<inter> set (contents s)) \<and>
            rv_complete v \<and> versions s' = versions s @ [v]"
proof -
  let ?s1 = "snd (new_version_enter npk r b s)"
  let ?v2 = "add_content (Content_filter_pk_in add ?s1)
               (remove_content
                  (Content_filter_pk_in (resolve_remove_content_units r rem s) ?s1)
                  (fst (new_version_enter npk r b s)))"
  have res: "resolve_remove_content_units r rem s =
      (if ''*'' \<in> set rem
       then (case latest_version r s of Some l \<Rightarrow> rv_content l | None \<Rightarrow> [])
       else rem)"
    by (simp add: resolve_remove_content_units_def)
  have eq: "set (rv_content ?v2) =
      (set (case b of
              Some w \<Rightarrow> rv_content w
            | None \<Rightarrow> (case latest_version r s of Some l \<Rightarrow> rv_content l | None \<Rightarrow> []))
         - set (if ''*'' \<in> set rem
                then (case latest_version r s of Some l \<Rightarrow> rv_content l | None \<Rightarrow> [])
                else rem) \<inter> set (contents s))
      \<union> set add \<inter> set (contents s)"
    by (simp only: set_add_content set_remove_content set_Content_filter_pk_in
        contents_new_version_enter rv_content_new_version_enter res)
  have X: "X \<in> set (rv_content ?v2)"
    using assms(3,5)
    by (simp add: set_add_content set_Content_filter_pk_in contents_new_version_enter)
  have out: "X \<notin> A - set rem \<inter> set (contents s)" for A
    using assms(4,5) by simp
  show ?thesis
    using add_and_remove_success [OF assms(1,2), of npk add rem] eq X out
    by (simp add: Let_def versions_new_version_enter)
qed

theorem add_and_remove_add_wins_witness:
  "\<exists>v s'. add_and_remove ''v2'' ''r1'' [''c1''] [''c1''] None demo_store = (Inr v, s') \<and>
      set (rv_content v) = ({''c1'', ''c2''} - {''c1''}) \<union> {''c1''} \<and>
      ''c1'' \<in> set (rv_content v) \<and> ''c1'' \<notin> {''c1'', ''c2''} - {''c1''} \<and>
      rv_complete v \<and> versions s' = versions demo_store @ [v]"
proof -
  have r: "Repository_get ''r1'' demo_store =
             Some \<lparr>repo_pk = ''r1'', repo_name = ''demo'', repo_next_version = 2\<rparr>"
    by (simp add: Repository_get_def demo_store_def)
  have b: "get_base_version None demo_store = Inr None"
    by (simp add: get_base_version_def)
  have c: "''c1'' \<in> set (contents demo_store)"
    by (simp add: demo_store_def)
  have l: "latest_version \<lparr>repo_pk = ''r1'', repo_name = ''demo'', repo_next_version = 2\<rparr>
             demo_store =
           Some \<lparr>rv_pk = ''v1'', rv_repository = ''r1'', rv_number = 1, rv_complete = True,
                 rv_content = [''c1'', ''c2'']\<rparr>"
    by (simp add: latest_version_def complete_versions_def demo_store_def)
  have cs: "set (contents demo_store) = {''c1'', ''c2'', ''c3''}"
    by (simp add: demo_store_def)
  have i: "{''c1''} \<inter> {''c1'', ''c2'', ''c3''} = {''c1''}"
    by blast
  from add_and_remove_add_wins [OF r b _ _ c, of "[''c1'']" "[''c1'']" "''v2''"]
  show ?thesis
    unfolding l cs by (simp add: i)
qed

text \<open>
  C9. When the remove list of \<^verbatim>\<open>add_and_remove\<close> contains \<^verbatim>\<open>"*"\<close>, the units to remove
  are exactly the content of the repository's latest version as it is when the task runs,
  and no unit at all when the repository has no latest version; the new version is the
  base content without those units, plus the added units.
\<close>

theorem add_and_remove_star:
  assumes "Repository_get rp s = Some r" and "get_base_version bpk s = Inr b"
    and "''*'' \<in> set rem"
  shows "resolve_remove_content_units r rem s =
           (case latest_version r s of Some l \<Rightarrow> rv_content l | None \<Rightarrow> []) \<and>
         (\<exists>v s'. add_and_remove npk rp add rem bpk s = (Inr v, s') \<and>
            set (rv_content v) =
              (set (rv_content (fst (new_version_enter npk r b s))) -
                 set (case latest_version r s of Some l \<Rightarrow> rv_content l | None \<Rightarrow> [])
                   \<inter> set (contents s))
              \<union> set add \<inter> set (contents s))"
proof -
  have res: "resolve_remove_content_units r rem s =
           (case latest_version r s of Some l \<Rightarrow> rv_content l | None \<Rightarrow> [])"
    using assms(3) by (simp add: resolve_remove_content_units_def)
  show ?thesis
    using add_and_remove_success [OF assms(1,2), of npk add rem] res
    by (simp add: Let_def set_add_content set_remove_content set_Content_filter_pk_in
        contents_new_version_enter)
qed

theorem add_and_remove_star_witness:
  "resolve_remove_content_units
       \<lparr>repo_pk = ''r1'', repo_name = ''demo'', repo_next_version = 2\<rparr> [''*''] demo_store =
     [''c1'', ''c2''] \<and>
   resolve_remove_content_units
       \<lparr>repo_pk = ''r1'', repo_name = ''demo'', repo_next_version = 0\<rparr> [''*'']
       demo_store_fresh = [] \<and>
   (\<exists>v s'. add_and_remove ''v2'' ''r1'' [''c3''] [''*''] None demo_store = (Inr v, s') \<and>
      set (rv_content v) = {''c3''})"
proof -
  have r: "Repository_get ''r1'' demo_store =
             Some \<lparr>repo_pk = ''r1'', repo_name = ''demo'', repo_next_version = 2\<rparr>"
    by (simp add: Repository_get_def demo_store_def)
  have r0: "Repository_get ''r1'' demo_store_fresh =
             Some \<lparr>repo_pk = ''r1'', repo_name = ''demo'', repo_next_version = 0\<rparr>"
    by (simp add: Repository_get_def demo_store_fresh_def)
  have b: "get_base_version None s = Inr None" for s
    by (simp add: get_base_version_def)
  have star: "''*'' \<in> set [''*'']"
    by simp
  have l: "latest_version \<lparr>repo_pk = ''r1'', repo_name = ''demo'', repo_next_version = 2\<rparr>
             demo_store =
           Some \<lparr>rv_pk = ''v1'', rv_repository = ''r1'', rv_number = 1, rv_complete = True,
                 rv_content = [''c1'', ''c2'']\<rparr>"
    by (simp add: latest_version_def complete_versions_def demo_store_def)
  have l0: "latest_version \<lparr>repo_pk = ''r1'', repo_name = ''demo'', repo_next_version = 0\<rparr>
             demo_store_fresh = None"
    by (simp add: latest_version_def complete_versions_def demo_store_fresh_def)
  have c: "contents demo_store = [''c1'', ''c2'', ''c3'']"
    by (simp add: demo_store_def)
  have e: "rv_content (fst (new_version_enter ''v2''
             \<lparr>repo_pk = ''r1'', repo_name = ''demo'', repo_next_version = 2\<rparr> None demo_store)) =
           [''c1'', ''c2'']"
    by (simp add: rv_content_new_version_enter l)
  from add_and_remove_star [OF r b star, of "''v2''" "[''c3'']"]
  have one: "resolve_remove_content_units
       \<lparr>repo_pk = ''r1'', repo_name = ''demo'', repo_next_version = 2\<rparr> [''*''] demo_store =
     [''c1'', ''c2''] \<and>
     (\<exists>v s'. add_and_remove ''v2'' ''r1'' [''c3''] [''*''] None demo_store = (Inr v, s') \<and>
      set (rv_content v) = {''c3''})"
    unfolding l e c by auto
  from add_and_remove_star [OF r0 b star, of "''v0''" "[]"]
  have two: "resolve_remove_content_units
       \<lparr>repo_pk = ''r1'', repo_name = ''demo'', repo_next_version = 0\<rparr> [''*'']
       demo_store_fresh = []"
    unfolding l0 by simp
  from one two show ?thesis by blast
qed

section \<open>Properties of artifact repair\<close>

lemma repair_ca_loop_all_fail:
  "list_all (\<lambda>ra. \<not> verified env a ra) ras \<Longrightarrow>
   repair_ca_loop env a cnt ras st =
     (False, file_delete (a_file a) (st\<lparr>rs_downloads := rs_downloads st @ ras\<rparr>))"
  by (induction ras arbitrary: st) (auto simp: verified_def Let_def split: sum.splits)

lemma repair_ca_loop_first_good:
  "list_all (\<lambda>ra. \<not> verified env a ra) pre \<Longrightarrow> re_run env ra = Inr dl \<Longrightarrow>
   dl_sha256 dl = a_sha256 a \<Longrightarrow>
   repair_ca_loop env a cnt (pre @ ra # post) st =
     (True,
      (let st3 = file_save (a_file a) (dl_bytes dl)
                   (file_delete (a_file a) (st\<lparr>rs_downloads := rs_downloads st @ pre @ [ra]\<rparr>))
       in if cnt then st3\<lparr>rs_repaired := Suc (rs_repaired st3)\<rparr> else st3))"
  by (induction pre arbitrary: st) (auto simp: verified_def Let_def split: sum.splits)

text \<open>
  C6. For an invalid artifact, \<^verbatim>\<open>_repair_ca\<close> runs the downloads of its RemoteArtifacts in
  their stored order. A failed download and a download whose sha256 is not the recorded
  one write nothing and the next source is tried. At the first download with the
  recorded sha256 the stored file is deleted and saved anew from the download, no later
  source is tried, and the result is True. When no source passes, also when there is no
  source, the only storage operation is the deletion of the stored file and the result is
  False.
\<close>

theorem repair_ca_sources:
  assumes "ca_artifact ca = Some a"
  shows "(list_all (\<lambda>ra. \<not> verified env a ra) (remoteartifact_set db ca) \<longrightarrow>
            repair_ca env db ca cnt st =
              Inr (False,
                   st\<lparr>rs_storage := (rs_storage st)(a_file a := None),
                      rs_ops := rs_ops st @ [Delete (a_file a)],
                      rs_downloads := rs_downloads st @ remoteartifact_set db ca\<rparr>)) \<and>
         (\<forall>pre ra post dl.
            remoteartifact_set db ca = pre @ ra # post \<and>
            list_all (\<lambda>ra. \<not> verified env a ra) pre \<and>
            re_run env ra = Inr dl \<and> dl_sha256 dl = a_sha256 a \<longrightarrow>
            repair_ca env db ca cnt st =
              Inr (True,
                   st\<lparr>rs_storage := (rs_storage st)(a_file a \<mapsto> dl_bytes dl),
                      rs_ops := rs_ops st @ [Delete (a_file a), Save (a_file a) (dl_bytes dl)],
                      rs_downloads := rs_downloads st @ pre @ [ra],
                      rs_repaired := (if cnt then Suc (rs_repaired st) else rs_repaired st)\<rparr>))"
proof (intro conjI allI impI)
  assume none: "list_all (\<lambda>ra. \<not> verified env a ra) (remoteartifact_set db ca)"
  show "repair_ca env db ca cnt st =
          Inr (False,
               st\<lparr>rs_storage := (rs_storage st)(a_file a := None),
                  rs_ops := rs_ops st @ [Delete (a_file a)],
                  rs_downloads := rs_downloads st @ remoteartifact_set db ca\<rparr>)"
  proof (cases "remoteartifact_set db ca = []")
    case True
    then show ?thesis
      using assms by (simp add: repair_ca_def file_delete_def)
  next
    case False
    then show ?thesis
      using assms repair_ca_loop_all_fail [OF none, of cnt st]
      by (simp add: repair_ca_def file_delete_def)
  qed
next
  fix pre ra post dl
  assume h: "remoteartifact_set db ca = pre @ ra # post \<and>
             list_all (\<lambda>ra. \<not> verified env a ra) pre \<and>
             re_run env ra = Inr dl \<and> dl_sha256 dl = a_sha256 a"
  then have "repair_ca_loop env a cnt (pre @ ra # post) st =
     (True,
      (let st3 = file_save (a_file a) (dl_bytes dl)
                   (file_delete (a_file a) (st\<lparr>rs_downloads := rs_downloads st @ pre @ [ra]\<rparr>))
       in if cnt then st3\<lparr>rs_repaired := Suc (rs_repaired st3)\<rparr> else st3))"
    using repair_ca_loop_first_good by blast
  with h show "repair_ca env db ca cnt st =
              Inr (True,
                   st\<lparr>rs_storage := (rs_storage st)(a_file a \<mapsto> dl_bytes dl),
                      rs_ops := rs_ops st @ [Delete (a_file a), Save (a_file a) (dl_bytes dl)],
                      rs_downloads := rs_downloads st @ pre @ [ra],
                      rs_repaired := (if cnt then Suc (rs_repaired st) else rs_repaired st)\<rparr>)"
    using assms by (simp add: repair_ca_def file_delete_def file_save_def Let_def)
qed

text \<open>
  C10. When the scope handed to the repair is given but empty, the repair does not scan
  nothing: it scans every content artifact that has an artifact and whose Content is a row
  of the current domain, which is exactly what the repair without a scope does.
\<close>

theorem repair_empty_subset_is_global:
  "repair_artifacts_for_content env db (Some []) verify_checksums st =
     repair_scan env db verify_checksums
       (filter (\<lambda>ca. ca_artifact ca \<noteq> None \<and>
                      ca_content ca \<in> set (map c_pk (filter (\<lambda>c. c_pulp_domain c = re_domain env)
                                                       (content_table db))))
          (content_artifact_table db)) st \<and>
   repair_artifacts_for_content env db (Some []) verify_checksums st =
     repair_artifacts_for_content env db None verify_checksums st"
  by (simp add: repair_query_set_def repair_artifacts_for_content_def domain_content_def
      conj_commute)

subsection \<open>Repair on the example data\<close>

lemma demo_remoteartifact_set:
  "remoteartifact_set demo_db demo_ca =
     [demo_remote_artifact ''http://down'', demo_remote_artifact ''http://bad''] @
     demo_remote_artifact ''http://good'' # [demo_remote_artifact ''http://mirror'']"
  by (simp add: remoteartifact_set_def demo_db_def demo_remote_artifact_def)

lemma demo_remoteartifact_set_unreachable:
  "remoteartifact_set demo_db_unreachable demo_ca =
     [demo_remote_artifact ''http://down'', demo_remote_artifact ''http://bad'']"
  by (simp add: remoteartifact_set_def demo_db_unreachable_def demo_remote_artifact_def)

lemma demo_verified:
  "\<not> verified demo_env demo_artifact (demo_remote_artifact ''http://down'')"
  "\<not> verified demo_env demo_artifact (demo_remote_artifact ''http://bad'')"
  "re_run demo_env (demo_remote_artifact ''http://good'') =
     Inr \<lparr>dl_path = ''/tmp/2'', dl_sha256 = ''s256'', dl_bytes = ''abc''\<rparr>"
  by (simp_all add: verified_def demo_env_def demo_run_def demo_remote_artifact_def
      demo_artifact_def)

lemma demo_state_fields:
  "rs_storage demo_state = [''artifact/ab/cdef'' \<mapsto> ''zzz'']"
  "rs_ops demo_state = []" "rs_downloads demo_state = []" "rs_repaired demo_state = 0"
  by (simp_all add: demo_state_def)

lemma demo_artifact_fields:
  "a_file demo_artifact = ''artifact/ab/cdef''" "a_sha256 demo_artifact = ''s256''"
  by (simp_all add: demo_artifact_def)

theorem repair_ca_sources_witness:
  "repair_ca demo_env demo_db demo_ca True demo_state =
     Inr (True,
          demo_state\<lparr>rs_storage := [''artifact/ab/cdef'' \<mapsto> ''abc''],
                     rs_ops := [Delete ''artifact/ab/cdef'', Save ''artifact/ab/cdef'' ''abc''],
                     rs_downloads := [demo_remote_artifact ''http://down'',
                                      demo_remote_artifact ''http://bad'',
                                      demo_remote_artifact ''http://good''],
                     rs_repaired := 1\<rparr>) \<and>
   repair_ca demo_env demo_db_unreachable demo_ca True demo_state =
     Inr (False,
          demo_state\<lparr>rs_storage := Map.empty,
                     rs_ops := [Delete ''artifact/ab/cdef''],
                     rs_downloads := [demo_remote_artifact ''http://down'',
                                      demo_remote_artifact ''http://bad'']\<rparr>)"
proof -
  have a: "ca_artifact demo_ca = Some demo_artifact"
    by (simp add: demo_ca_def)
  have pre: "list_all (\<lambda>ra. \<not> verified demo_env demo_artifact ra)
               [demo_remote_artifact ''http://down'', demo_remote_artifact ''http://bad'']"
    by (simp add: demo_verified)
  have hyp: "remoteartifact_set demo_db demo_ca =
        [demo_remote_artifact ''http://down'', demo_remote_artifact ''http://bad''] @
        demo_remote_artifact ''http://good'' # [demo_remote_artifact ''http://mirror''] \<and>
      list_all (\<lambda>ra. \<not> verified demo_env demo_artifact ra)
        [demo_remote_artifact ''http://down'', demo_remote_artifact ''http://bad''] \<and>
      re_run demo_env (demo_remote_artifact ''http://good'') =
        Inr \<lparr>dl_path = ''/tmp/2'', dl_sha256 = ''s256'', dl_bytes = ''abc''\<rparr> \<and>
      dl_sha256 \<lparr>dl_path = ''/tmp/2'', dl_sha256 = ''s256'', dl_bytes = ''abc''\<rparr> =
        a_sha256 demo_artifact"
    using demo_remoteartifact_set pre demo_verified(3) by (simp add: demo_artifact_fields)
  note good = repair_ca_sources [OF a, of demo_env demo_db True demo_state,
      THEN conjunct2, rule_format, OF hyp]
  have hyp2: "list_all (\<lambda>ra. \<not> verified demo_env demo_artifact ra)
                (remoteartifact_set demo_db_unreachable demo_ca)"
    using pre by (simp add: demo_remoteartifact_set_unreachable)
  note bad = repair_ca_sources [OF a, of demo_env demo_db_unreachable True demo_state,
      THEN conjunct1, rule_format, OF hyp2]
  have one: "repair_ca demo_env demo_db demo_ca True demo_state =
     Inr (True,
          demo_state\<lparr>rs_storage := [''artifact/ab/cdef'' \<mapsto> ''abc''],
                     rs_ops := [Delete ''artifact/ab/cdef'', Save ''artifact/ab/cdef'' ''abc''],
                     rs_downloads := [demo_remote_artifact ''http://down'',
                                      demo_remote_artifact ''http://bad'',
                                      demo_remote_artifact ''http://good''],
                     rs_repaired := 1\<rparr>)"
    unfolding good by (simp add: demo_state_fields demo_artifact_fields)
  have two: "repair_ca demo_env demo_db_unreachable demo_ca True demo_state =
     Inr (False,
          demo_state\<lparr>rs_storage := Map.empty,
                     rs_ops := [Delete ''artifact/ab/cdef''],
                     rs_downloads := [demo_remote_artifact ''http://down'',
                                      demo_remote_artifact ''http://bad'']\<rparr>)"
    unfolding bad
    by (simp add: demo_state_fields demo_artifact_fields demo_remoteartifact_set_unreachable)
  from one two show ?thesis by (rule conjI)
qed

lemma repair_empty_subset_example:
  "repair_query_set demo_env demo_db (Some []) = [demo_ca] \<and>
   repair_query_set demo_env demo_db (Some [''c7'']) = []"
  by (simp add: repair_query_set_def domain_content_def demo_env_def demo_db_def
      demo_content_def demo_ca_def)

section \<open>Properties of query_existing_content_units\<close>

lemma map_fst_dict_set:
  "map fst (dict_set d k v) = (if k \<in> set (map fst d) then map fst d else map fst d @ [k])"
  by (induction d k v rule: dict_set.induct) auto

lemma dict_get_default_dict_set:
  "dict_get_default (dict_set d k v) t = (if t = k then v else dict_get_default d t)"
  by (induction d k v rule: dict_set.induct) (auto simp: dict_get_default_def)

lemma Q_or_op_not_empty: "a \<noteq> Q_kwargs [] \<Longrightarrow> Q_or_op a b \<noteq> Q_kwargs []"
  by (simp add: Q_or_op_def)

lemma Q_matches_Q_or_op:
  "a \<noteq> Q_kwargs [] \<Longrightarrow>
   Q_matches (Q_or_op a (Q_kwargs uk)) row = (Q_matches a row \<or> (uk \<noteq> [] \<and> Q_matches (Q_kwargs uk) row))"
  by (auto simp: Q_or_op_def)

lemma build_keys:
  "build_content_q_by_type nkf batch acc = Inr res \<Longrightarrow> distinct (map fst acc) \<Longrightarrow>
   distinct (map fst res) \<and> set (map fst res) = set (map fst acc) \<union> set (batch_types batch)"
proof (induction nkf batch acc rule: build_content_q_by_type.induct)
  case (1 nkf acc)
  then show ?case by simp
next
  case (2 nkf rest acc)
  then show ?case by simp
next
  case (3 nkf d rest acc)
  from "3.prems"(1) obtain uk where
    uk: "natural_key_dict nkf (dc_content d) = Inr uk"
    and rec: "build_content_q_by_type nkf rest
           (dict_set acc (c_type (dc_content d))
              (Q_or_op (dict_get_default acc (c_type (dc_content d))) (Q_kwargs uk))) = Inr res"
    by (auto simp: Let_def split: sum.splits)
  have d: "distinct (map fst (dict_set acc (c_type (dc_content d))
              (Q_or_op (dict_get_default acc (c_type (dc_content d))) (Q_kwargs uk))))"
    using "3.prems"(2) by (simp add: map_fst_dict_set)
  from "3.IH"[OF refl uk rec d] show ?case
    by (auto simp: map_fst_dict_set split: if_splits)
qed

lemma query_types_issued:
  "query_types nkf tbl qs batch issued = Inr (batch', issued') \<Longrightarrow> issued' = issued @ qs"
  by (induction nkf tbl qs batch issued rule: query_types.induct) (auto split: sum.splits)

lemma build_semantics:
  "build_content_q_by_type nkf batch acc = Inr res \<Longrightarrow>
   \<forall>t. dict_get_default acc t \<noteq> Q_kwargs [] \<Longrightarrow>
   (\<forall>t. dict_get_default res t \<noteq> Q_kwargs []) \<and>
   (\<forall>t. Q_matches (dict_get_default res t) row =
      (Q_matches (dict_get_default acc t) row \<or> requested nkf t row batch))"
proof (induction nkf batch acc rule: build_content_q_by_type.induct)
  case (1 nkf acc)
  then show ?case by simp
next
  case (2 nkf rest acc)
  then show ?case by simp
next
  case (3 nkf d rest acc)
  let ?k = "c_type (dc_content d)"
  from "3.prems"(1) obtain uk where
    uk: "natural_key_dict nkf (dc_content d) = Inr uk"
    and rec: "build_content_q_by_type nkf rest
           (dict_set acc ?k (Q_or_op (dict_get_default acc ?k) (Q_kwargs uk))) = Inr res"
    by (auto simp: Let_def split: sum.splits)
  let ?acc = "dict_set acc ?k (Q_or_op (dict_get_default acc ?k) (Q_kwargs uk))"
  have ne: "\<forall>t. dict_get_default ?acc t \<noteq> Q_kwargs []"
    using "3.prems"(2) by (simp add: dict_get_default_dict_set Q_or_op_not_empty)
  have sem: "Q_matches (dict_get_default ?acc t) row =
     (Q_matches (dict_get_default acc t) row \<or>
      (t = ?k \<and> uk \<noteq> [] \<and> Q_matches (Q_kwargs uk) row))" for t
    using "3.prems"(2) by (simp add: dict_get_default_dict_set Q_matches_Q_or_op)
  from "3.IH"[OF refl uk rec ne] have
    a: "\<forall>t. dict_get_default res t \<noteq> Q_kwargs []" and
    b: "\<forall>t. Q_matches (dict_get_default res t) row =
      (Q_matches (dict_get_default ?acc t) row \<or> requested nkf t row rest)"
    by blast+
  show ?case
  proof (intro conjI allI)
    fix t show "dict_get_default res t \<noteq> Q_kwargs []" using a by blast
  next
    fix t
    show "Q_matches (dict_get_default res t) row =
       (Q_matches (dict_get_default acc t) row \<or> requested nkf t row (Some d # rest))"
      using b[rule_format, of t] sem[of t] uk by auto
  qed
qed

lemma dict_get_default_member:
  "distinct (map fst d) \<Longrightarrow> (t, q) \<in> set d \<Longrightarrow> dict_get_default d t = q"
  by (simp add: dict_get_default_def)

text \<open>
  C5, as amended. For every batch that \<^verbatim>\<open>query_existing_content_units\<close> processes without an
  exception, it issues exactly one existence query for every concrete content type that
  has an entry in the batch, and none for any other type. The predicate of the query for
  a type is satisfied by exactly the rows that have all the fields of the non-empty natural
  key of some entry of that type; a type whose entries have an empty natural key is still
  queried, with the seed \<^verbatim>\<open>Q(pk=None)\<close>, which no row satisfies.
\<close>

theorem query_batch_one_query_per_type:
  assumes "query_batch nkf tbl batch = Inr (batch', issued)"
  shows "distinct (map fst issued) \<and>
         set (map fst issued) = set (batch_types batch) \<and>
         (\<forall>t q row. (t, q) \<in> set issued \<longrightarrow> Q_matches q row = requested nkf t row batch)"
proof -
  from assms obtain qs where
    qs: "build_content_q_by_type nkf batch [] = Inr qs"
    and run: "query_types nkf tbl qs batch [] = Inr (batch', issued)"
    by (auto simp: query_batch_def split: sum.splits)
  from query_types_issued[OF run] have eq: "issued = qs" by simp
  from build_keys[OF qs] have keys:
    "distinct (map fst qs)" "set (map fst qs) = set (batch_types batch)"
    by simp_all
  have sem: "Q_matches (dict_get_default qs t) row = requested nkf t row batch" for t row
    using build_semantics[OF qs, of row] by (simp add: dict_get_default_def)
  show ?thesis
    unfolding eq using keys sem dict_get_default_member[OF keys(1)] by metis
qed

text \<open>
  The claim C5 as it is written fails: the only entry of type \<^verbatim>\<open>meta\<close> has an empty
  natural key, and a query for \<^verbatim>\<open>meta\<close> is issued all the same.
\<close>

theorem query_batch_empty_key_counterexample:
  "natural_key_dict demo_nkf (dc_content demo_new_meta) = Inr [] \<and>
   query_batch demo_nkf [] [Some demo_new_meta] =
     Inr ([Some demo_new_meta], [(''meta'', Q_pk_None)])"
  by (simp add: query_batch_def natural_key_dict_def demo_nkf_def demo_new_meta_def
      demo_unit_def Q_or_op_def dict_get_default_def objects_filter_def)

lemma demo_natural_keys:
  "natural_key_dict demo_nkf (dc_content demo_new_file) =
     Inr [(''relative_path'', ''a''), (''digest'', ''x'')]"
  "natural_key_dict demo_nkf (dc_content demo_new_iso) =
     Inr [(''relative_path'', ''a''), (''digest'', ''x'')]"
  "natural_key_dict demo_nkf (dc_content demo_new_rpm) = Inr [(''name'', ''a'')]"
  "natural_key_dict demo_nkf (dc_content demo_new_meta) = Inr []"
  by (simp_all add: natural_key_dict_def demo_nkf_def demo_new_file_def demo_new_iso_def
      demo_new_rpm_def demo_new_meta_def demo_unit_def getattr_def)

lemma demo_types:
  "c_type (dc_content demo_new_file) = ''file''" "c_type (dc_content demo_new_iso) = ''iso''"
  "c_type (dc_content demo_new_rpm) = ''rpm''" "c_type (dc_content demo_new_meta) = ''meta''"
  "c_type demo_saved_file = ''file''"
  by (simp_all add: demo_new_file_def demo_new_iso_def demo_new_rpm_def demo_new_meta_def
      demo_saved_file_def demo_unit_def)

lemmas demo_stage_defs =
  demo_saved_file_def demo_unit_def demo_nkf_def demo_new_file_def demo_new_iso_def
  demo_new_rpm_def demo_new_meta_def

lemma demo_query_batch_file_meta:
  "query_batch demo_nkf [] [Some demo_new_file, None, Some demo_new_meta] =
     Inr ([Some demo_new_file, None, Some demo_new_meta],
          [(''file'', Q_or Q_pk_None (Q_kwargs [(''relative_path'', ''a''), (''digest'', ''x'')])),
           (''meta'', Q_pk_None)])"
  by (simp add: query_batch_def demo_natural_keys demo_types Q_or_op_def dict_get_default_def
      objects_filter_def)

theorem query_batch_one_query_per_type_witness:
  "distinct (map fst
     [(''file'', Q_or Q_pk_None (Q_kwargs [(''relative_path'', ''a''), (''digest'', ''x'')])),
      (''meta'', Q_pk_None)]) \<and>
   set (map fst
     [(''file'', Q_or Q_pk_None (Q_kwargs [(''relative_path'', ''a''), (''digest'', ''x'')])),
      (''meta'', Q_pk_None)]) =
     set (batch_types [Some demo_new_file, None, Some demo_new_meta]) \<and>
   Q_matches (Q_or Q_pk_None (Q_kwargs [(''relative_path'', ''a''), (''digest'', ''x'')]))
       demo_saved_file =
     requested demo_nkf ''file'' demo_saved_file [Some demo_new_file, None, Some demo_new_meta]"
  using query_batch_one_query_per_type [OF demo_query_batch_file_meta]
  by (metis list.set_intros(1))

text \<open>
  C1. Every stage is to put each real item once and the sentinel once, last, on its output
  queue. \<^verbatim>\<open>query_existing_content_units\<close>, given one unit and then the sentinel, puts the
  unit and then the sentinel twice: once when it forwards the batch, once after the loop.
\<close>

theorem query_stage_two_sentinels:
  "query_existing_content_units demo_nkf [] [Got (Some demo_new_rpm), Got None] =
     (Returned, [Some demo_new_rpm, None, None]) \<and>
   query_existing_content_units demo_nkf []
       [QueueEmpty, Got (Some demo_new_rpm), QueueEmpty, Got None, QueueEmpty] =
     (Returned, [Some demo_new_rpm, None, None])"
  by (simp add: query_existing_content_units_def query_batch_def demo_natural_keys demo_types
      Q_or_op_def dict_get_default_def objects_filter_def)

text \<open>
  C4. An entry is to be replaced by a returned record only if it has the record's
  concrete type. With a saved \<^verbatim>\<open>file\<close> row and a batch of a \<^verbatim>\<open>file\<close> unit and an \<^verbatim>\<open>iso\<close>
  unit that have the same values in the fields of the natural key of \<^verbatim>\<open>file\<close>, the stage
  replaces the content of the \<^verbatim>\<open>iso\<close> entry by the \<^verbatim>\<open>file\<close> row as well.
\<close>

theorem query_batch_replaces_other_type:
  "query_batch demo_nkf [demo_saved_file] [Some demo_new_file, Some demo_new_iso] =
     Inr ([Some (demo_new_file\<lparr>dc_content := demo_saved_file\<rparr>),
           Some (demo_new_iso\<lparr>dc_content := demo_saved_file\<rparr>)],
          [(''file'', Q_or Q_pk_None (Q_kwargs [(''relative_path'', ''a''), (''digest'', ''x'')])),
           (''iso'', Q_or Q_pk_None (Q_kwargs [(''relative_path'', ''a''), (''digest'', ''x'')]))]) \<and>
   c_type (dc_content demo_new_iso) = ''iso'' \<and> c_type demo_saved_file = ''file''"
  by (simp add: query_batch_def natural_key_dict_def Q_or_op_def dict_get_default_def
      objects_filter_def getattr_def demo_stage_defs)

lemma query_batch_other_type_raises:
  "query_batch demo_nkf [demo_saved_file] [Some demo_new_file, Some demo_new_rpm] =
     Inl AttributeError"
  by (simp add: query_batch_def natural_key_dict_def Q_or_op_def dict_get_default_def
      objects_filter_def getattr_def demo_stage_defs)

subsection \<open>The sentinel in every run of query_existing_content_units\<close>

lemma replace_matching_sentinels:
  "replace_matching nkf result batch = Inr batch' \<Longrightarrow>
   map (\<lambda>x. x = None) batch' = map (\<lambda>x. x = None) batch"
proof (induction nkf result batch arbitrary: batch' rule: replace_matching.induct)
  case (1 nkf result)
  then show ?case by simp
next
  case (2 nkf result rest)
  then show ?case by (auto split: sum.splits)
next
  case (3 nkf result d rest)
  then show ?case by (auto split: sum.splits)
qed

lemma apply_results_sentinels:
  "apply_results nkf results batch = Inr batch' \<Longrightarrow>
   map (\<lambda>x. x = None) batch' = map (\<lambda>x. x = None) batch"
proof (induction nkf results batch arbitrary: batch' rule: apply_results.induct)
  case (1 nkf batch)
  then show ?case by simp
next
  case (2 nkf result results batch)
  from "2.prems" obtain b1 where
    r: "replace_matching nkf result batch = Inr b1" and a: "apply_results nkf results b1 = Inr batch'"
    by (auto split: sum.splits)
  from "2.IH"[OF r a] replace_matching_sentinels[OF r] show ?case by simp
qed

lemma query_types_sentinels:
  "query_types nkf tbl qs batch issued = Inr (batch', issued') \<Longrightarrow>
   map (\<lambda>x. x = None) batch' = map (\<lambda>x. x = None) batch"
proof (induction nkf tbl qs batch issued arbitrary: batch' issued' rule: query_types.induct)
  case (1 nkf tbl batch issued)
  then show ?case by simp
next
  case (2 nkf tbl model_type q rest batch issued)
  from "2.prems" obtain b1 where
    r: "apply_results nkf (objects_filter tbl model_type q) batch = Inr b1" and
    a: "query_types nkf tbl rest b1 (issued @ [(model_type, q)]) = Inr (batch', issued')"
    by (auto split: sum.splits)
  from "2.IH"[OF r a] apply_results_sentinels[OF r] show ?case by simp
qed

lemma query_batch_sentinels:
  "query_batch nkf tbl batch = Inr (batch', issued) \<Longrightarrow>
   map (\<lambda>x. x = None) batch' = map (\<lambda>x. x = None) batch"
  by (auto simp: query_batch_def split: sum.splits dest: query_types_sentinels)

lemma query_batch_keeps_sentinel:
  assumes "query_batch nkf tbl batch = Inr (batch', issued)" and "None \<in> set batch"
  shows "None \<in> set batch'"
proof -
  from assms(2) have "True \<in> set (map (\<lambda>x. x = None) batch)" by force
  with query_batch_sentinels[OF assms(1)] have "True \<in> set (map (\<lambda>x. x = None) batch')"
    by simp
  then show ?thesis by auto
qed

text \<open>
  Whenever \<^verbatim>\<open>query_existing_content_units\<close> returns, the last value it has put on its output
  queue is the sentinel, and it has put the sentinel before that as well.
\<close>

lemma qecu_loop_returns_two_sentinels:
  "qecu_loop nkf tbl in_q batch out = (Returned, out') \<Longrightarrow>
   \<exists>before. out' = before @ [None] \<and> None \<in> set before"
proof (induction nkf tbl in_q batch out rule: qecu_loop.induct)
  case (1 nkf tbl batch out)
  then show ?case
    by (auto split: if_splits sum.splits prod.splits dest: query_batch_keeps_sentinel)
next
  case (2 nkf tbl content in_q batch out)
  then show ?case by simp
next
  case (3 nkf tbl in_q batch out)
  show ?case
  proof (cases "batch = []")
    case True
    with "3.prems" "3.IH"(1) show ?thesis by simp
  next
    case False
    from False "3.prems" obtain batch' issued where
      qb: "query_batch nkf tbl batch = Inr (batch', issued)"
      by (auto split: sum.splits)
    show ?thesis
    proof (cases "None \<in> set batch")
      case True
      with False qb "3.prems" have "out' = (out @ batch') @ [None]" by simp
      moreover from query_batch_keeps_sentinel[OF qb True] have "None \<in> set (out @ batch')"
        by simp
      ultimately show ?thesis by blast
    next
      case sentinel: False
      with False qb "3.prems" have
        "qecu_loop nkf tbl in_q [] (out @ batch') = (Returned, out')"
        by simp
      from "3.IH"(2)[OF False qb refl sentinel this] show ?thesis .
    qed
  qed
qed

lemma query_stage_returns_two_sentinels:
  "query_existing_content_units nkf tbl in_q = (Returned, out) \<Longrightarrow>
   \<exists>before. out = before @ [None] \<and> None \<in> set before"
  unfolding query_existing_content_units_def by (rule qecu_loop_returns_two_sentinels)

subsection \<open>The whole repair on the example data\<close>

lemma demo_repair_ca:
  "repair_ca demo_env demo_db demo_ca True st =
     Inr (True,
          st\<lparr>rs_storage := (rs_storage st)(''artifact/ab/cdef'' \<mapsto> ''abc''),
             rs_ops := rs_ops st @ [Delete ''artifact/ab/cdef'', Save ''artifact/ab/cdef'' ''abc''],
             rs_downloads := rs_downloads st @
               [demo_remote_artifact ''http://down'', demo_remote_artifact ''http://bad'',
                demo_remote_artifact ''http://good''],
             rs_repaired := Suc (rs_repaired st)\<rparr>)"
proof -
  have a: "ca_artifact demo_ca = Some demo_artifact"
    by (simp add: demo_ca_def)
  have pre: "list_all (\<lambda>ra. \<not> verified demo_env demo_artifact ra)
               [demo_remote_artifact ''http://down'', demo_remote_artifact ''http://bad'']"
    by (simp add: demo_verified)
  have sha: "dl_sha256 \<lparr>dl_path = ''/tmp/2'', dl_sha256 = ''s256'', dl_bytes = ''abc''\<rparr> =
               a_sha256 demo_artifact"
    by (simp add: demo_artifact_fields)
  show ?thesis
    using repair_ca_loop_first_good [OF pre demo_verified(3) sha, of True
        "[demo_remote_artifact ''http://mirror'']" st]
    by (simp add: repair_ca_def a demo_remoteartifact_set Let_def file_save_def file_delete_def
        demo_artifact_fields)
qed

theorem repair_empty_subset_is_global_witness:
  "repair_artifacts_for_content demo_env demo_db (Some []) True demo_state =
     Inr (demo_state\<lparr>rs_storage := [''artifact/ab/cdef'' \<mapsto> ''abc''],
                     rs_ops := [Delete ''artifact/ab/cdef'', Save ''artifact/ab/cdef'' ''abc''],
                     rs_downloads := [demo_remote_artifact ''http://down'',
                                      demo_remote_artifact ''http://bad'',
                                      demo_remote_artifact ''http://good''],
                     rs_corrupted := 1, rs_repaired := 1\<rparr>) \<and>
   repair_artifacts_for_content demo_env demo_db None True demo_state =
     repair_artifacts_for_content demo_env demo_db (Some []) True demo_state"
proof -
  have scope: "filter (\<lambda>ca. ca_artifact ca \<noteq> None \<and>
                      ca_content ca \<in> set (map c_pk (filter (\<lambda>c. c_pulp_domain c = re_domain demo_env)
                                                       (content_table demo_db))))
          (content_artifact_table demo_db) = [demo_ca]"
    by (simp add: demo_env_def demo_db_def demo_content_def demo_ca_def)
  have f1: "ca_artifact demo_ca = Some demo_artifact"
    by (simp add: demo_ca_def)
  have f2: "rs_storage demo_state (a_file demo_artifact) = Some ''zzz''"
    by (simp add: demo_state_def demo_artifact_def)
  have f3: "verify_artifact demo_env demo_artifact demo_state = Inr False"
    by (simp add: verify_artifact_def f2)
      (simp add: demo_env_def demo_artifact_def demo_hexdigest_def)
  have one: "scan_content_artifact demo_env demo_db True demo_ca demo_state =
     Inr (demo_state\<lparr>rs_storage := [''artifact/ab/cdef'' \<mapsto> ''abc''],
                     rs_ops := [Delete ''artifact/ab/cdef'', Save ''artifact/ab/cdef'' ''abc''],
                     rs_downloads := [demo_remote_artifact ''http://down'',
                                      demo_remote_artifact ''http://bad'',
                                      demo_remote_artifact ''http://good''],
                     rs_corrupted := 1, rs_repaired := 1\<rparr>)"
    by (simp add: scan_content_artifact_def f1 f2 f3 start_repair_def demo_repair_ca)
      (simp add: demo_state_def)
  note T = repair_empty_subset_is_global [of demo_env demo_db True demo_state]
  from T have A: "repair_artifacts_for_content demo_env demo_db (Some []) True demo_state =
      repair_scan demo_env demo_db True [demo_ca] demo_state"
    unfolding scope by (rule conjunct1)
  from T have B: "repair_artifacts_for_content demo_env demo_db (Some []) True demo_state =
      repair_artifacts_for_content demo_env demo_db None True demo_state"
    by (rule conjunct2)
  have C: "repair_scan demo_env demo_db True [demo_ca] demo_state =
     Inr (demo_state\<lparr>rs_storage := [''artifact/ab/cdef'' \<mapsto> ''abc''],
                     rs_ops := [Delete ''artifact/ab/cdef'', Save ''artifact/ab/cdef'' ''abc''],
                     rs_downloads := [demo_remote_artifact ''http://down'',
                                      demo_remote_artifact ''http://bad'',
                                      demo_remote_artifact ''http://good''],
                     rs_corrupted := 1, rs_repaired := 1\<rparr>)"
    by (simp add: one)
  from A C have D: "repair_artifacts_for_content demo_env demo_db (Some []) True demo_state =
     Inr (demo_state\<lparr>rs_storage := [''artifact/ab/cdef'' \<mapsto> ''abc''],
                     rs_ops := [Delete ''artifact/ab/cdef'', Save ''artifact/ab/cdef'' ''abc''],
                     rs_downloads := [demo_remote_artifact ''http://down'',
                                      demo_remote_artifact ''http://bad'',
                                      demo_remote_artifact ''http://good''],
                     rs_corrupted := 1, rs_repaired := 1\<rparr>)"
    by (rule trans)
  from D B [symmetric] show ?thesis by (rule conjI)
qed

section \<open>Properties of content_unit_saver\<close>

lemma put_pair_pair: "put_pair (ca, d) m = m(ca_relative_path ca \<mapsto> d)"
  by (simp add: put_pair_def)

lemma new_content_artifact_saved:
  "new_content_artifact (c\<lparr>c_adding := False\<rparr>) da = new_content_artifact c da"
  by (simp add: new_content_artifact_def)

lemma stage_artifacts_eq:
  "stage_artifacts c das acc =
     acc\<lparr>acc_content_artifact_bulk :=
           acc_content_artifact_bulk acc @ map (new_content_artifact c) das,
         acc_remote_artifact_map :=
           fold put_pair (map (\<lambda>da. (new_content_artifact c da, remote_artifact_data_of da)) das)
             (acc_remote_artifact_map acc)\<rparr>"
proof (induction das arbitrary: acc)
  case Nil
  then show ?case by simp
next
  case (Cons da das)
  show ?case
    by (simp add: Cons.IH Let_def put_pair_pair fun_upd_def)
qed

lemma save_loop_ok:
  "save_loop accepts batch db acc = (Inr (batch', acc'), db') \<Longrightarrow>
   content_table db' = content_table db @ new_contents batch \<and>
   content_artifact_table db' = content_artifact_table db \<and>
   remote_artifact_table db' = remote_artifact_table db \<and>
   acc_content_artifact_bulk acc' = acc_content_artifact_bulk acc @ new_content_artifacts batch \<and>
   acc_remote_artifact_map acc' = fold put_pair (staged_pairs batch) (acc_remote_artifact_map acc)"
proof (induction accepts batch db acc arbitrary: batch' acc' db' rule: save_loop.induct)
  case (1 accepts db acc)
  then show ?case
    by (simp add: new_contents_def new_content_artifacts_def staged_pairs_def)
next
  case (2 accepts rest db acc)
  from "2.prems" obtain rest' where
    "save_loop accepts rest db acc = (Inr (rest', acc'), db')"
    by (auto split: prod.splits sum.splits)
  from "2.IH"[OF this] show ?case
    by (simp add: new_contents_def new_content_artifacts_def staged_pairs_def)
next
  case (3 accepts d rest db acc)
  show ?case
  proof (cases "c_adding (dc_content d)")
    case False
    with "3.prems" obtain rest' where
      "save_loop accepts rest db acc = (Inr (rest', acc'), db')"
      by (auto split: prod.splits sum.splits)
    from "3.IH"(2)[OF False this] False show ?thesis
      by (simp add: new_contents_def new_content_artifacts_def staged_pairs_def)
  next
    case True
    let ?saved = "(dc_content d)\<lparr>c_adding := False\<rparr>"
    let ?db1 = "db\<lparr>content_table := content_table db @ [?saved]\<rparr>"
    from True "3.prems" have acc: "accepts (content_table db) (dc_content d)"
      by (auto simp: Content_save_def split: if_splits)
    then have cs: "Content_save accepts (dc_content d) db = (Inr ?saved, ?db1)"
      by (simp add: Content_save_def Let_def)
    with True "3.prems" obtain rest' where
      rec: "save_loop accepts rest ?db1 (stage_artifacts ?saved (d_artifacts d) acc) =
              (Inr (rest', acc'), db')"
      by (auto split: prod.splits sum.splits)
    from "3.IH"(1)[OF True cs[symmetric] refl rec] True show ?thesis
      by (simp add: new_contents_def new_content_artifacts_def staged_pairs_def
          stage_artifacts_eq new_content_artifact_saved comp_def)
  qed
qed

lemma save_loop_error_or_ok:
  "save_loop accepts batch db acc = (r, db') \<Longrightarrow>
   content_artifact_table db' = content_artifact_table db \<and>
   remote_artifact_table db' = remote_artifact_table db"
proof (induction accepts batch db acc arbitrary: r db' rule: save_loop.induct)
  case (1 accepts db acc)
  then show ?case by auto
next
  case (2 accepts rest db acc)
  then show ?case by (auto split: prod.splits sum.splits)
next
  case (3 accepts d rest db acc)
  then show ?case
    by (auto simp: Content_save_def Let_def split: prod.splits sum.splits if_splits)
qed

lemma pair_remote_artifacts_ok:
  "pair_remote_artifacts cas m acc = Inr res \<Longrightarrow>
   distinct (map ca_relative_path cas) \<and>
   (\<forall>ca \<in> set cas. m (ca_relative_path ca) \<noteq> None) \<and>
   res = acc @ map (\<lambda>ca. new_remote_artifact ca (the (m (ca_relative_path ca)))) cas"
proof (induction cas arbitrary: m acc)
  case Nil
  then show ?case by simp
next
  case (Cons ca cas)
  from Cons.prems obtain d where
    d: "m (ca_relative_path ca) = Some d"
    and rec: "pair_remote_artifacts cas (m(ca_relative_path ca := None))
                (acc @ [new_remote_artifact ca d]) = Inr res"
    by (auto split: option.splits)
  from Cons.IH[OF rec] have
    dist: "distinct (map ca_relative_path cas)" and
    ne: "\<forall>x \<in> set cas. (m(ca_relative_path ca := None)) (ca_relative_path x) \<noteq> None" and
    res: "res = (acc @ [new_remote_artifact ca d]) @
            map (\<lambda>x. new_remote_artifact x
                       (the ((m(ca_relative_path ca := None)) (ca_relative_path x)))) cas"
    by blast+
  from ne have other: "\<forall>x \<in> set cas. ca_relative_path x \<noteq> ca_relative_path ca"
    by auto
  have same: "map (\<lambda>x. new_remote_artifact x
                       (the ((m(ca_relative_path ca := None)) (ca_relative_path x)))) cas =
              map (\<lambda>x. new_remote_artifact x (the (m (ca_relative_path x)))) cas"
    using other by (intro map_cong) auto
  show ?case
    using dist ne other d res same by auto
qed

lemma fold_put_pair_other:
  "k \<notin> set (map (\<lambda>p. ca_relative_path (fst p)) ps) \<Longrightarrow> fold put_pair ps m k = m k"
  by (induction ps arbitrary: m) (auto simp: put_pair_def)

lemma fold_put_pair_member:
  "distinct (map (\<lambda>p. ca_relative_path (fst p)) ps) \<Longrightarrow> (ca, d) \<in> set ps \<Longrightarrow>
   fold put_pair ps m (ca_relative_path ca) = Some d"
proof (induction ps arbitrary: m)
  case Nil
  then show ?case by simp
next
  case (Cons p ps)
  show ?case
  proof (cases "p = (ca, d)")
    case True
    with Cons.prems(1) have "ca_relative_path ca \<notin> set (map (\<lambda>p. ca_relative_path (fst p)) ps)"
      by auto
    from fold_put_pair_other[OF this, of "put_pair (ca, d) m"] True show ?thesis
      by (simp add: put_pair_pair)
  next
    case False
    with Cons.prems have "(ca, d) \<in> set ps" "distinct (map (\<lambda>p. ca_relative_path (fst p)) ps)"
      by auto
    from Cons.IH[OF this(2,1)] show ?thesis by simp
  qed
qed

lemma paired_rows:
  assumes "pair_remote_artifacts (map fst ps) (fold put_pair ps Map.empty) [] = Inr res"
  shows "res = map (\<lambda>(content_artifact, data). new_remote_artifact content_artifact data) ps"
proof -
  from pair_remote_artifacts_ok[OF assms] have
    dist: "distinct (map ca_relative_path (map fst ps))" and
    res: "res = map (\<lambda>ca. new_remote_artifact ca
                 (the (fold put_pair ps Map.empty (ca_relative_path ca)))) (map fst ps)"
    by simp_all
  from dist have dist': "distinct (map (\<lambda>p. ca_relative_path (fst p)) ps)"
    by (simp add: comp_def)
  have "map (\<lambda>ca. new_remote_artifact ca
                 (the (fold put_pair ps Map.empty (ca_relative_path ca)))) (map fst ps) =
        map (\<lambda>(content_artifact, data). new_remote_artifact content_artifact data) ps"
    unfolding map_map
    by (rule map_cong) (auto simp: fold_put_pair_member[OF dist'])
  with res show ?thesis by simp
qed

lemma fold_put_pair_upd_other:
  "k \<notin> set (map (\<lambda>p. ca_relative_path (fst p)) ps) \<Longrightarrow>
   (fold put_pair ps m)(k := v) = fold put_pair ps (m(k := v))"
proof (induction ps arbitrary: m)
  case Nil
  then show ?case by simp
next
  case (Cons p ps)
  then have k: "k \<noteq> ca_relative_path (fst p)"
    and rest: "k \<notin> set (map (\<lambda>p. ca_relative_path (fst p)) ps)"
    by auto
  have eq: "(put_pair p m)(k := v) = put_pair p (m(k := v))"
    using k by (auto simp: put_pair_def)
  have "(fold put_pair (p # ps) m)(k := v) = (fold put_pair ps (put_pair p m))(k := v)"
    by (simp only: fold_simps)
  also have "\<dots> = fold put_pair ps ((put_pair p m)(k := v))"
    by (rule Cons.IH[OF rest])
  also have "\<dots> = fold put_pair ps (put_pair p (m(k := v)))"
    by (simp only: eq)
  also have "\<dots> = fold put_pair (p # ps) (m(k := v))"
    by (simp only: fold_simps)
  finally show ?case .
qed

lemma pair_remote_artifacts_succeeds:
  "distinct (map (\<lambda>p. ca_relative_path (fst p)) ps) \<Longrightarrow>
   pair_remote_artifacts (map fst ps) (fold put_pair ps m) acc =
     Inr (acc @ map (\<lambda>(content_artifact, data). new_remote_artifact content_artifact data) ps)"
proof (induction ps arbitrary: m acc)
  case Nil
  then show ?case by simp
next
  case (Cons p ps)
  obtain ca d where p: "p = (ca, d)" by (cases p)
  from Cons.prems p have
    notin: "ca_relative_path ca \<notin> set (map (\<lambda>p. ca_relative_path (fst p)) ps)"
    and dist: "distinct (map (\<lambda>p. ca_relative_path (fst p)) ps)"
    by auto
  have look: "fold put_pair ps (put_pair (ca, d) m) (ca_relative_path ca) = Some d"
    using fold_put_pair_other[OF notin, of "put_pair (ca, d) m"] by (simp add: put_pair_pair)
  have pop: "(fold put_pair ps (put_pair (ca, d) m))(ca_relative_path ca := None) =
             fold put_pair ps (m(ca_relative_path ca := None))"
    using fold_put_pair_upd_other[OF notin, of "put_pair (ca, d) m" None]
    by (simp add: put_pair_pair)
  have "pair_remote_artifacts (map fst (p # ps)) (fold put_pair (p # ps) m) acc =
        pair_remote_artifacts (ca # map fst ps) (fold put_pair ps (put_pair (ca, d) m)) acc"
    by (simp only: p fold_simps list.map fst_conv)
  also have "\<dots> = pair_remote_artifacts (map fst ps)
        ((fold put_pair ps (put_pair (ca, d) m))(ca_relative_path ca := None))
        (acc @ [new_remote_artifact ca d])"
    by (simp only: pair_remote_artifacts.simps look option.case)
  also have "\<dots> = pair_remote_artifacts (map fst ps)
        (fold put_pair ps (m(ca_relative_path ca := None)))
        (acc @ [new_remote_artifact ca d])"
    by (simp only: pop)
  also have "\<dots> = Inr ((acc @ [new_remote_artifact ca d]) @
        map (\<lambda>(content_artifact, data). new_remote_artifact content_artifact data) ps)"
    by (rule Cons.IH[OF dist])
  also have "\<dots> = Inr (acc @
        map (\<lambda>(content_artifact, data). new_remote_artifact content_artifact data) (p # ps))"
    by (simp add: p)
  finally show ?case .
qed

lemma save_loop_succeeds:
  "\<forall>tbl c. accepts tbl c \<Longrightarrow>
   \<exists>batch' acc' db'. save_loop accepts batch db acc = (Inr (batch', acc'), db')"
proof (induction accepts batch db acc rule: save_loop.induct)
  case (1 accepts db acc)
  then show ?case by simp
next
  case (2 accepts rest db acc)
  then show ?case by fastforce
next
  case (3 accepts d rest db acc)
  show ?case
  proof (cases "c_adding (dc_content d)")
    case False
    with "3.IH"(2)[OF False "3.prems"] show ?thesis by fastforce
  next
    case True
    let ?saved = "(dc_content d)\<lparr>c_adding := False\<rparr>"
    let ?db1 = "db\<lparr>content_table := content_table db @ [?saved]\<rparr>"
    have cs: "Content_save accepts (dc_content d) db = (Inr ?saved, ?db1)"
      using "3.prems" by (simp add: Content_save_def Let_def)
    from "3.IH"(1)[OF True cs[symmetric] refl "3.prems"] obtain batch' acc' db' where
      "save_loop accepts rest ?db1 (stage_artifacts ?saved (d_artifacts d) acc) =
         (Inr (batch', acc'), db')"
      by blast
    with True cs show ?thesis by simp
  qed
qed

text \<open>
  C3. Every write of a batch of \<^verbatim>\<open>content_unit_saver\<close>, the new Content rows, the
  ContentArtifact rows and the RemoteArtifact rows, is made inside the one transaction:
  when the transaction fails, at whatever point, the store is as it was before the batch,
  and when it succeeds the store holds, after the rows it had, every Content row, every
  ContentArtifact row and every RemoteArtifact row that the batch asks for. The
  transaction succeeds when the store accepts every Content, no new ContentArtifact has
  the key of a stored one, and the relative paths of the new ContentArtifacts are distinct.
\<close>

theorem content_unit_saver_batch_atomic:
  "(\<forall>r db'. content_unit_saver_batch accepts batch db = (r, db') \<longrightarrow>
      (\<forall>e. r = Inl e \<longrightarrow> db' = db) \<and>
      (\<forall>batch'. r = Inr batch' \<longrightarrow>
         content_table db' = content_table db @ new_contents batch \<and>
         content_artifact_table db' =
           content_artifact_table db @ new_content_artifacts batch \<and>
         remote_artifact_table db' =
           remote_artifact_table db @ new_remote_artifacts batch)) \<and>
   ((\<forall>tbl c. accepts tbl c) \<and>
    distinct (map ca_relative_path (new_content_artifacts batch)) \<and>
    list_all (\<lambda>obj. ca_key obj \<notin> set (map ca_key (content_artifact_table db)))
      (new_content_artifacts batch) \<longrightarrow>
      (\<exists>batch' db'. content_unit_saver_batch accepts batch db = (Inr batch', db')))"
proof (intro conjI allI impI)
  fix r db' e
  assume "content_unit_saver_batch accepts batch db = (r, db')" and "r = Inl e"
  then show "db' = db"
    by (auto simp: content_unit_saver_batch_def atomic_def split: prod.splits sum.splits)
next
  fix r db' batch'
  assume run: "content_unit_saver_batch accepts batch db = (r, db')" and r: "r = Inr batch'"
  then have body: "saver_body accepts batch db = (Inr batch', db')"
    by (auto simp: content_unit_saver_batch_def atomic_def split: prod.splits sum.splits)
  let ?acc0 = "\<lparr>acc_content_artifact_bulk = [], acc_remote_artifact_map = Map.empty\<rparr>"
  from body obtain acc db1 where
    sl: "save_loop accepts batch db ?acc0 = (Inr (batch', acc), db1)"
    by (auto simp: saver_body_def split: prod.splits sum.splits)
  from save_loop_ok[OF sl] have
    ct: "content_table db1 = content_table db @ new_contents batch" and
    cat: "content_artifact_table db1 = content_artifact_table db" and
    rat: "remote_artifact_table db1 = remote_artifact_table db" and
    bulk: "acc_content_artifact_bulk acc = new_content_artifacts batch" and
    amap: "acc_remote_artifact_map acc = fold put_pair (staged_pairs batch) Map.empty"
    by simp_all
  let ?db2 = "db1\<lparr>content_artifact_table :=
                    content_artifact_table db1 @ new_content_artifacts batch\<rparr>"
  from body sl bulk have
    bc: "ContentArtifact_bulk_create (new_content_artifacts batch) db1 =
           (Inr (new_content_artifacts batch), ?db2)"
    by (auto simp: saver_body_def ContentArtifact_bulk_create_def
        split: prod.splits sum.splits if_splits)
  from body sl bulk bc amap obtain ras where
    pr: "pair_remote_artifacts (new_content_artifacts batch)
           (fold put_pair (staged_pairs batch) Map.empty) [] = Inr ras" and
    fin: "db' = RemoteArtifact_bulk_create ras ?db2"
    by (auto simp: saver_body_def split: prod.splits sum.splits)
  from paired_rows[OF pr[unfolded new_content_artifacts_def]]
  have ras: "ras = new_remote_artifacts batch"
    by (simp add: new_remote_artifacts_def)
  show "content_table db' = content_table db @ new_contents batch"
    using fin ct by (simp add: RemoteArtifact_bulk_create_def)
  show "content_artifact_table db' = content_artifact_table db @ new_content_artifacts batch"
    using fin cat by (simp add: RemoteArtifact_bulk_create_def)
  show "remote_artifact_table db' = remote_artifact_table db @ new_remote_artifacts batch"
    using fin rat ras by (simp add: RemoteArtifact_bulk_create_def)
next
  assume h: "(\<forall>tbl c. accepts tbl c) \<and>
    distinct (map ca_relative_path (new_content_artifacts batch)) \<and>
    list_all (\<lambda>obj. ca_key obj \<notin> set (map ca_key (content_artifact_table db)))
      (new_content_artifacts batch)"
  let ?acc0 = "\<lparr>acc_content_artifact_bulk = [], acc_remote_artifact_map = Map.empty\<rparr>"
  from h save_loop_succeeds[of accepts batch db ?acc0] obtain batch' acc db1 where
    sl: "save_loop accepts batch db ?acc0 = (Inr (batch', acc), db1)"
    by blast
  from save_loop_ok[OF sl] have
    cat: "content_artifact_table db1 = content_artifact_table db" and
    bulk: "acc_content_artifact_bulk acc = new_content_artifacts batch" and
    amap: "acc_remote_artifact_map acc = fold put_pair (staged_pairs batch) Map.empty"
    by simp_all
  from h have dk: "distinct (map ca_key (new_content_artifacts batch))"
    by (simp add: distinct_map ca_key_def inj_on_def)
  have bc: "ContentArtifact_bulk_create (new_content_artifacts batch) db1 =
      (Inr (new_content_artifacts batch),
       db1\<lparr>content_artifact_table :=
             content_artifact_table db1 @ new_content_artifacts batch\<rparr>)"
    using h dk cat by (simp add: ContentArtifact_bulk_create_def)
  from h have "distinct (map (\<lambda>p. ca_relative_path (fst p)) (staged_pairs batch))"
    by (simp add: new_content_artifacts_def comp_def)
  from pair_remote_artifacts_succeeds[OF this, of Map.empty "[]"]
  have pr: "pair_remote_artifacts (new_content_artifacts batch)
           (fold put_pair (staged_pairs batch) Map.empty) [] =
           Inr (new_remote_artifacts batch)"
    by (simp add: new_content_artifacts_def new_remote_artifacts_def)
  show "\<exists>batch' db'. content_unit_saver_batch accepts batch db = (Inr batch', db')"
    using sl bulk amap bc pr
    by (simp add: content_unit_saver_batch_def atomic_def saver_body_def)
qed

subsection \<open>content_unit_saver on the example data\<close>

lemmas demo_saver_defs =
  demo_batch_ok_def demo_batch_dup_def demo_batch_shared_def demo_dc_def demo_da_def
  demo_unit_def demo_empty_db_def accepts_all_def accepts_new_pk_def

lemmas saver_defs =
  content_unit_saver_batch_def atomic_def saver_body_def Content_save_def
  ContentArtifact_bulk_create_def RemoteArtifact_bulk_create_def ca_key_def
  new_content_artifact_def Let_def

text \<open>
  A batch whose transaction succeeds has no two new ContentArtifacts with the same relative
  path: the second \<^verbatim>\<open>pop\<close> of a path raises.
\<close>

lemma saver_success_needs_distinct_paths:
  assumes "content_unit_saver_batch accepts batch db = (Inr batch', db')"
  shows "distinct (map ca_relative_path (new_content_artifacts batch))"
proof -
  let ?acc0 = "\<lparr>acc_content_artifact_bulk = [], acc_remote_artifact_map = Map.empty\<rparr>"
  from assms have body: "saver_body accepts batch db = (Inr batch', db')"
    by (auto simp: content_unit_saver_batch_def atomic_def split: prod.splits sum.splits)
  then obtain acc db1 where
    sl: "save_loop accepts batch db ?acc0 = (Inr (batch', acc), db1)"
    by (auto simp: saver_body_def split: prod.splits sum.splits)
  from save_loop_ok[OF sl] have
    bulk: "acc_content_artifact_bulk acc = new_content_artifacts batch"
    by simp
  from body sl bulk obtain ras m where
    "pair_remote_artifacts (new_content_artifacts batch) m [] = Inr ras"
    by (auto simp: saver_body_def ContentArtifact_bulk_create_def
        split: prod.splits sum.splits if_splits)
  from pair_remote_artifacts_ok[OF this] show ?thesis by simp
qed

text \<open>
  C2. Two distinct unsaved units of one batch that share a relative path are each to get
  the RemoteArtifact of their own artifact. In \<^verbatim>\<open>content_unit_saver\<close> the second unit's data
  overwrites the first's in \<^verbatim>\<open>remote_artifact_map\<close>, whose key is the relative path alone,
  and the second \<^verbatim>\<open>pop\<close> raises KeyError: the batch is rolled back and the stage ends with
  the exception, nothing forwarded.
\<close>

theorem saver_shared_relative_path_raises:
  "content_unit_saver_batch accepts_all demo_batch_shared demo_empty_db =
     (Inl KeyError, demo_empty_db) \<and>
   content_unit_saver accepts_all
       [Got (Some (demo_dc ''n1'' ''a'' [demo_da ''http://one/f'' ''f.txt''])),
        Got (Some (demo_dc ''n2'' ''b'' [demo_da ''http://two/f'' ''f.txt''])),
        Got None] demo_empty_db =
     ((Raised KeyError, []), demo_empty_db) \<and>
   acc_remote_artifact_map
       (stage_artifacts (dc_content (demo_dc ''n2'' ''b'' [])) [demo_da ''http://two/f'' ''f.txt'']
          (stage_artifacts (dc_content (demo_dc ''n1'' ''a'' [])) [demo_da ''http://one/f'' ''f.txt'']
             \<lparr>acc_content_artifact_bulk = [], acc_remote_artifact_map = Map.empty\<rparr>))
       ''f.txt'' =
     Some (remote_artifact_data_of (demo_da ''http://two/f'' ''f.txt''))"
  by (simp add: content_unit_saver_def saver_defs demo_saver_defs)

text \<open>
  \<^verbatim>\<open>content_unit_saver\<close>, given one unit and then the sentinel, puts the saved unit and the
  sentinel once.
\<close>

lemma saver_stage_one_sentinel:
  "fst (content_unit_saver accepts_all
          [Got (Some (demo_dc ''n1'' ''a'' [])), Got None] demo_empty_db) =
     (Returned, [Some ((demo_dc ''n1'' ''a'' [])\<lparr>dc_content :=
                         (dc_content (demo_dc ''n1'' ''a'' []))\<lparr>c_adding := False\<rparr>\<rparr>), None])"
  by (simp add: content_unit_saver_def saver_defs demo_saver_defs)

lemma demo_dup_fails:
  "fst (content_unit_saver_batch accepts_new_pk demo_batch_dup demo_empty_db) =
     Inl IntegrityError"
  by (simp add: saver_defs demo_saver_defs)

lemma demo_dup_body_partial:
  "content_table (snd (saver_body accepts_new_pk demo_batch_dup demo_empty_db)) =
     [demo_unit ''n1'' ''rpm'' False [(''name'', ''a'')]]"
  by (simp add: saver_defs demo_saver_defs)

lemma demo_ok_rows:
  "new_content_artifacts demo_batch_ok =
     [new_content_artifact (demo_unit ''n1'' ''rpm'' True [(''name'', ''a'')])
        (demo_da ''http://one/f'' ''f.txt''),
      new_content_artifact (demo_unit ''n2'' ''rpm'' True [(''name'', ''b'')])
        (demo_da ''http://two/g'' ''g.txt'')]"
  by (simp add: new_content_artifacts_def staged_pairs_def demo_batch_ok_def demo_dc_def
      demo_unit_def)

theorem content_unit_saver_batch_atomic_witness:
  "snd (content_unit_saver_batch accepts_new_pk demo_batch_dup demo_empty_db) = demo_empty_db \<and>
   content_table (snd (saver_body accepts_new_pk demo_batch_dup demo_empty_db)) =
     [demo_unit ''n1'' ''rpm'' False [(''name'', ''a'')]] \<and>
   (\<exists>batch' db'.
      content_unit_saver_batch accepts_all demo_batch_ok demo_empty_db = (Inr batch', db') \<and>
      content_table db' = new_contents demo_batch_ok \<and>
      content_artifact_table db' = new_content_artifacts demo_batch_ok \<and>
      remote_artifact_table db' = new_remote_artifacts demo_batch_ok \<and>
      length (remote_artifact_table db') = 2)"
proof -
  note T1 = content_unit_saver_batch_atomic [of accepts_new_pk demo_batch_dup demo_empty_db]
  have run: "content_unit_saver_batch accepts_new_pk demo_batch_dup demo_empty_db =
        (Inl IntegrityError,
         snd (content_unit_saver_batch accepts_new_pk demo_batch_dup demo_empty_db))"
    using demo_dup_fails by (simp add: prod_eq_iff)
  from T1 [THEN conjunct1, rule_format, OF run, THEN conjunct1, rule_format, OF refl]
  have one: "snd (content_unit_saver_batch accepts_new_pk demo_batch_dup demo_empty_db) =
      demo_empty_db" .
  note T2 = content_unit_saver_batch_atomic [of accepts_all demo_batch_ok demo_empty_db]
  have hyp: "(\<forall>tbl c. accepts_all tbl c) \<and>
      distinct (map ca_relative_path (new_content_artifacts demo_batch_ok)) \<and>
      list_all (\<lambda>obj. ca_key obj \<notin> set (map ca_key (content_artifact_table demo_empty_db)))
        (new_content_artifacts demo_batch_ok)"
    by (simp add: demo_ok_rows accepts_all_def new_content_artifact_def demo_da_def
        demo_empty_db_def)
  from T2 [THEN conjunct2, rule_format, OF hyp] obtain batch' db' where
    ok: "content_unit_saver_batch accepts_all demo_batch_ok demo_empty_db = (Inr batch', db')"
    by blast
  from T2 [THEN conjunct1, rule_format, OF ok, THEN conjunct2, rule_format, OF refl]
  have rows: "content_table db' = content_table demo_empty_db @ new_contents demo_batch_ok"
    "content_artifact_table db' =
       content_artifact_table demo_empty_db @ new_content_artifacts demo_batch_ok"
    "remote_artifact_table db' =
       remote_artifact_table demo_empty_db @ new_remote_artifacts demo_batch_ok"
    by simp_all
  have e: "content_table demo_empty_db = []" "content_artifact_table demo_empty_db = []"
    "remote_artifact_table demo_empty_db = []"
    by (simp_all add: demo_empty_db_def)
  have len: "length (new_remote_artifacts demo_batch_ok) = 2"
    by (simp add: new_remote_artifacts_def staged_pairs_def demo_batch_ok_def demo_dc_def
        demo_unit_def)
  from one demo_dup_body_partial ok rows len show ?thesis
    by (simp add: e)
qed

end
